theory Spec2Isabelle
  imports Main "HOL-Library.DAList"
begin

text \<open>
  A model of \<open>create_virtual_sample.py\<close>: the script that fetches several sample
  records, reconciles their attributes into one virtual sample under a checklist,
  uploads it, and in a later run releases it. Pure functions of the script are HOL
  functions of the same name; \<open>main\<close> is a function of the outside world (\<open>env\<close>) that
  returns what the run did (\<open>event list\<close>) and how it ended (an exception or \<open>()\<close>).
\<close>

section \<open>Python values\<close>

text \<open>
  Strings are \<open>string\<close>; a value that may be \<open>None\<close> is a \<open>string option\<close>.
  Python's truth test on such a value (\<open>if checklist:\<close>, \<open>if units:\<close>) is false for
  \<open>None\<close> and for the empty string.
\<close>

definition truthy :: "string option \<Rightarrow> bool" where
  "truthy x = (case x of None \<Rightarrow> False | Some s \<Rightarrow> s \<noteq> [])"

text \<open>\<open>sep.join(xs)\<close>.\<close>

fun join :: "string \<Rightarrow> string list \<Rightarrow> string" where
  "join sep [] = []"
| "join sep [x] = x"
| "join sep (x # y # ys) = x @ sep @ join sep (y # ys)"

text \<open>
  A \<open>dict\<close> keeps its keys unique and iterates in insertion order; assigning to a key
  that is already there keeps the key's position. That is an association list with
  distinct keys under \<open>DAList.update\<close>.
\<close>

type_synonym ('k, 'v) dict = "('k, 'v) alist"

abbreviation items :: "('k, 'v) dict \<Rightarrow> ('k \<times> 'v) list" where
  "items d \<equiv> DAList.impl_of d"

definition keys :: "('k, 'v) dict \<Rightarrow> 'k list" where
  "keys d = map fst (items d)"

text \<open>
  The exceptions the script can end with; \<open>exit(1)\<close> is \<open>SystemExit 1\<close>, and
  \<open>RequestException\<close> stands for what \<open>requests.get\<close> raises when the request itself
  fails (\<open>ConnectionError\<close>, \<open>Timeout\<close>, ...).
\<close>

datatype error =
    ValueError string
  | Exception string
  | SystemExit nat
  | FileNotFoundError string
  | RequestException string

text \<open>How an f-string renders a value that may be \<open>None\<close>.\<close>

definition str_of :: "string option \<Rightarrow> string" where
  "str_of x = (case x of None \<Rightarrow> ''None'' | Some s \<Rightarrow> s)"

section \<open>ElementTree elements\<close>

text \<open>
  An \<open>xml.etree.ElementTree.Element\<close>: tag, attributes, text and children. The script
  builds its documents with \<open>ET.Element\<close> and \<open>ET.SubElement\<close>; the model builds the
  same trees bottom-up.
\<close>

datatype xml =
  Element (elem_tag: string) (elem_attrib: "(string \<times> string) list")
          (elem_text: "string option") (elem_children: "xml list")

text \<open>\<open>Element.find(tag)\<close>: the first child with that tag.\<close>

definition find_child :: "xml \<Rightarrow> string \<Rightarrow> xml option" where
  "find_child e t = List.find (\<lambda>c. elem_tag c = t) (elem_children e)"

text \<open>\<open>Element.iter()\<close>: the element and all its descendants, in document order.\<close>

fun iter :: "xml \<Rightarrow> xml list" where
  "iter (Element t a x cs) = Element t a x cs # concat (map iter cs)"

section \<open>The documents read from the archive\<close>

text \<open>
  A sample record as the browser API returns it: the \<open>alias\<close> attribute of \<open>SAMPLE\<close>,
  the texts of \<open>TAXON_ID\<close> and \<open>SCIENTIFIC_NAME\<close>, and the \<open>SAMPLE_ATTRIBUTE\<close> children
  in document order, each with the text of its \<open>TAG\<close> and \<open>VALUE\<close> and of its \<open>UNITS\<close>
  when it has one. The \<open>text\<close> of an element without content is \<open>None\<close> and reading it
  raises nothing, so \<open>taxon_id\<close> and \<open>scientific_name\<close> are optional: \<open>None\<close> is an
  empty \<open>TAXON_ID\<close> or \<open>SCIENTIFIC_NAME\<close> element. The record takes the elements
  themselves (\<open>SAMPLE\<close>, \<open>SAMPLE_NAME\<close>, \<open>TAXON_ID\<close>, \<open>SCIENTIFIC_NAME\<close>,
  \<open>SAMPLE_ATTRIBUTES\<close>, \<open>TAG\<close>, \<open>VALUE\<close>) to be there, and \<open>TAG\<close> and \<open>VALUE\<close> to have
  content.
\<close>

record source_sample =
  sample_alias :: string
  taxon_id :: "string option"
  scientific_name :: "string option"
  sample_attributes :: "(string \<times> string \<times> string option) list"

text \<open>An \<open>AttributeSet\<close>: tag to (value, units).\<close>

type_synonym attribute_set = "(string, string \<times> string option) dict"

text \<open>
  A checklist definition: the \<open>NAME\<close> of its \<open>DESCRIPTOR\<close> and its \<open>FIELD\<close> elements in
  document order. A field has the text of \<open>NAME\<close> and of \<open>MANDATORY\<close>; \<open>field_units\<close>
  is \<open>None\<close> when the field has no \<open>UNITS\<close> element, \<open>Some None\<close> when \<open>UNITS\<close> has no
  \<open>UNIT\<close> child or an empty one, and \<open>Some (Some u)\<close> for the text of the first
  \<open>UNIT\<close>. The record takes the elements read without a test (\<open>DESCRIPTOR\<close>, \<open>NAME\<close>,
  \<open>MANDATORY\<close>) to be there and to have content.
\<close>

record checklist_field =
  field_name :: string
  field_units :: "string option option"
  field_mandatory :: string

record checklist_doc =
  descriptor_name :: string
  doc_fields :: "checklist_field list"

section \<open>\<open>parse_sample_attributes\<close>\<close>

definition parse_sample_attributes :: "source_sample \<Rightarrow> attribute_set" where
  "parse_sample_attributes sample =
     fold (\<lambda>(tag, value, units) attributes. DAList.update tag (value, units) attributes)
       (sample_attributes sample) DAList.empty"

section \<open>\<open>create_virtual_sample\<close>\<close>

definition text_element :: "string \<Rightarrow> string option \<Rightarrow> xml" where
  "text_element t x = Element t [] x []"

text \<open>
  One \<open>SAMPLE_ATTRIBUTE\<close> with its \<open>TAG\<close> and \<open>VALUE\<close>, and \<open>UNITS\<close> under \<open>if units:\<close>.
  The checklist attribute and the placeholders are built without units.
\<close>

definition sample_attribute :: "string \<Rightarrow> string \<Rightarrow> string option \<Rightarrow> xml" where
  "sample_attribute t v units =
     Element ''SAMPLE_ATTRIBUTE'' [] None
       ([text_element ''TAG'' (Some t), text_element ''VALUE'' (Some v)] @
        (if truthy units then [text_element ''UNITS'' units] else []))"

definition title_prefix :: string where
  "title_prefix = ''This sample is a virtual sample of assembled raw reads from multiple physical '' @
                  ''samples of genome and is composed of physical samples ''"

definition title_text :: "string list \<Rightarrow> string" where
  "title_text sample_codes = title_prefix @ join '', '' sample_codes @ ''.''"

definition missing_value :: string where
  "missing_value = ''missing: synthetic construct''"

definition checklist_tag :: string where
  "checklist_tag = ''ENA-CHECKLIST''"

text \<open>The loop over \<open>common_attributes.items()\<close>: appends to the children so far.\<close>

definition add_common_attributes :: "attribute_set \<Rightarrow> xml list \<Rightarrow> xml list" where
  "add_common_attributes common_attributes elems =
     fold (\<lambda>(t, (v, units)) acc.
             if t = checklist_tag then acc else acc @ [sample_attribute t v units])
       (items common_attributes) elems"

text \<open>The loop over \<open>mandatory_fields\<close>.\<close>

definition add_mandatory_fields :: "attribute_set \<Rightarrow> string list \<Rightarrow> xml list \<Rightarrow> xml list" where
  "add_mandatory_fields common_attributes mandatory_fields elems =
     fold (\<lambda>mandatory_field acc.
             if mandatory_field \<notin> set (keys common_attributes)
             then acc @ [sample_attribute mandatory_field missing_value None] else acc)
       mandatory_fields elems"

definition create_virtual_sample ::
  "attribute_set \<Rightarrow> string list \<Rightarrow> string option \<Rightarrow> string option \<Rightarrow> string \<Rightarrow>
   string option \<Rightarrow> string \<Rightarrow> string list \<Rightarrow> xml" where
  "create_virtual_sample common_attributes sample_codes common_taxon_id common_scientific_name
       alias center checklist mandatory_fields =
     Element ''SAMPLE''
       ((''alias'', alias) #
        (case center of None \<Rightarrow> [] | Some c \<Rightarrow> if c \<noteq> [] then [(''center_name'', c)] else []))
       None
       [text_element ''TITLE'' (Some (title_text sample_codes)),
        Element ''SAMPLE_NAME'' [] None
          [text_element ''TAXON_ID'' common_taxon_id,
           text_element ''SCIENTIFIC_NAME'' common_scientific_name],
        Element ''SAMPLE_ATTRIBUTES'' [] None
          (add_mandatory_fields common_attributes mandatory_fields
            (add_common_attributes common_attributes
              (if checklist \<noteq> [] then [sample_attribute checklist_tag checklist None] else [])))]"

section \<open>\<open>create_submission_xml\<close> and \<open>create_release_xml\<close>\<close>

definition create_submission_xml :: xml where
  "create_submission_xml =
     Element ''SUBMISSION'' [] None
       [Element ''ACTIONS'' [] None
         [Element ''ACTION'' [] None [Element ''ADD'' [] None []]]]"

definition create_release_xml :: "string \<Rightarrow> xml" where
  "create_release_xml sample_code =
     Element ''SUBMISSION'' [] None
       [Element ''ACTIONS'' [] None
         [Element ''ACTION'' [] None [Element ''MODIFY'' [] None []],
          Element ''ACTION'' [] None [Element ''RELEASE'' [(''target'', sample_code)] None []]]]"

text \<open>\<open>[e.get('target') for e in doc.iter('RELEASE')]\<close>, without the absent ones.\<close>

definition release_targets :: "xml \<Rightarrow> string list" where
  "release_targets doc =
     concat (map (\<lambda>e. map snd (filter (\<lambda>kv. fst kv = ''target'') (elem_attrib e)))
                 (filter (\<lambda>e. elem_tag e = ''RELEASE'') (iter doc)))"

section \<open>\<open>extract_sample_code_from_response\<close>\<close>

text \<open>
  A Python \<open>str\<close> is kept as its UTF-8 encoding, one \<open>char\<close> per byte. Nothing in
  the script counts characters, and the literals of the two patterns are ASCII, whose
  bytes never occur inside the encoding of another character; only \<open>\d\<close> looks at code
  points. On a \<open>str\<close> pattern \<open>\d\<close> matches every Unicode decimal digit (category
  \<open>Nd\<close>), not only \<open>0\<close> to \<open>9\<close>. These digits come in runs of ten from a digit zero;
  \<open>unicode_decimal_zeros\<close> lists the digit zeros of Unicode 14.0, the table of
  CPython 3.11. The properties below use of the table only that it holds \<open>0\<close> to \<open>9\<close>
  and not the double quote.
\<close>

definition dquote :: char where
  "dquote = CHR 0x22"

definition unicode_decimal_zeros :: "nat list" where
  "unicode_decimal_zeros =
     [0x30, 0x660, 0x6F0, 0x7C0, 0x966, 0x9E6, 0xA66, 0xAE6, 0xB66, 0xBE6, 0xC66, 0xCE6, 0xD66,
      0xDE6, 0xE50, 0xED0, 0xF20, 0x1040, 0x1090, 0x17E0, 0x1810, 0x1946, 0x19D0, 0x1A80, 0x1A90,
      0x1B50, 0x1BB0, 0x1C40, 0x1C50, 0xA620, 0xA8D0, 0xA900, 0xA9D0, 0xA9F0, 0xAA50, 0xABF0,
      0xFF10, 0x104A0, 0x10D30, 0x11066, 0x110F0, 0x11136, 0x111D0, 0x112F0, 0x11450, 0x114D0,
      0x11650, 0x116C0, 0x11730, 0x118E0, 0x11950, 0x11C50, 0x11D50, 0x11DA0, 0x16A60, 0x16AC0,
      0x16B50, 0x1D7CE, 0x1D7D8, 0x1D7E2, 0x1D7EC, 0x1D7F6, 0x1E140, 0x1E2F0, 0x1E950, 0x1FBF0]"

definition is_decimal :: "nat \<Rightarrow> bool" where
  "is_decimal cp = list_ex (\<lambda>z. z \<le> cp \<and> cp < z + 10) unicode_decimal_zeros"

text \<open>
  The code point encoded at the start of a byte string, with the number of bytes of its
  encoding: the first byte gives the number of bytes, and these bytes are decoded.
  The result is \<open>None\<close> when no well-formed encoding starts there (a stray continuation
  byte, a truncated sequence, an encoding longer than needed, a surrogate, a code point
  beyond U+10FFFF).
\<close>

definition continuation :: "char \<Rightarrow> bool" where
  "continuation b = (0x80 \<le> (of_char b :: nat) \<and> (of_char b :: nat) < 0xC0)"

definition lead_width :: "char \<Rightarrow> nat" where
  "lead_width b =
     (if (of_char b :: nat) < 0x80 then 1
      else if 0xC0 \<le> (of_char b :: nat) \<and> (of_char b :: nat) < 0xE0 then 2
      else if 0xE0 \<le> (of_char b :: nat) \<and> (of_char b :: nat) < 0xF0 then 3
      else if 0xF0 \<le> (of_char b :: nat) \<and> (of_char b :: nat) < 0xF8 then 4
      else 0)"

definition payload :: "char \<Rightarrow> nat" where
  "payload b = of_char b - 0x80"

definition decode_sequence :: "string \<Rightarrow> nat option" where
  "decode_sequence bs =
     (case bs of
        [b0] \<Rightarrow> if (of_char b0 :: nat) < 0x80 then Some (of_char b0) else None
      | [b0, b1] \<Rightarrow>
          (let cp = (of_char b0 - 0xC0) * 0x40 + payload b1
           in if continuation b1 \<and> 0x80 \<le> cp then Some cp else None)
      | [b0, b1, b2] \<Rightarrow>
          (let cp = ((of_char b0 - 0xE0) * 0x40 + payload b1) * 0x40 + payload b2
           in if continuation b1 \<and> continuation b2 \<and> 0x800 \<le> cp \<and>
                 \<not> (0xD800 \<le> cp \<and> cp < 0xE000)
              then Some cp else None)
      | [b0, b1, b2, b3] \<Rightarrow>
          (let cp = (((of_char b0 - 0xF0) * 0x40 + payload b1) * 0x40 + payload b2) * 0x40 +
                    payload b3
           in if continuation b1 \<and> continuation b2 \<and> continuation b3 \<and> 0x10000 \<le> cp \<and>
                 cp < 0x110000
              then Some cp else None)
      | _ \<Rightarrow> None)"

definition utf8_head :: "string \<Rightarrow> (nat \<times> nat) option" where
  "utf8_head s =
     (case s of
        [] \<Rightarrow> None
      | b0 # r \<Rightarrow>
          (let w = lead_width b0
           in if w = 0 \<or> length s < w then None
              else (case decode_sequence (take w s) of
                      None \<Rightarrow> None
                    | Some cp \<Rightarrow> Some (cp, w))))"

text \<open>
  The number of bytes of the decimal digit at the start of \<open>s\<close>, or \<open>0\<close> when \<open>s\<close> does
  not start with one; and the number of bytes of the longest run of decimal digits at
  the start of \<open>s\<close>.
\<close>

definition digit_width :: "string \<Rightarrow> nat" where
  "digit_width s =
     (case utf8_head s of None \<Rightarrow> 0 | Some (cp, w) \<Rightarrow> if is_decimal cp then w else 0)"

fun digits_len :: "string \<Rightarrow> nat" where
  "digits_len [] = 0"
| "digits_len (b # bs) =
     (case digit_width (b # bs) of 0 \<Rightarrow> 0 | Suc m \<Rightarrow> Suc m + digits_len (drop m bs))"

definition success_literal :: string where
  "success_literal = ''<SAMPLE accession='' @ [dquote]"

definition error_literal :: string where
  "error_literal = ''accession: '' @ [dquote]"

text \<open>
  The two patterns are a literal, the group \<open>ERS\d+\<close> and a closing double quote.
  \<open>\d+\<close> is greedy and the character after it must be the quote, which is no decimal
  digit, so the pattern matches at a position exactly when the literal and \<open>ERS\<close> stand
  there, the longest run of decimal digits that follows is not empty and the quote
  comes next; group 1 of the match is \<open>ERS\<close> with that run.
\<close>

definition match_at :: "string \<Rightarrow> string \<Rightarrow> string option" where
  "match_at lit s =
     (if take (length lit) s = lit \<and> take 3 (drop (length lit) s) = ''ERS''
      then (let rest = drop (length lit + 3) s;
                n = digits_len rest
            in if n \<noteq> 0 \<and> take 1 (drop n rest) = [dquote]
               then Some (''ERS'' @ take n rest) else None)
      else None)"

text \<open>\<open>re.search\<close>: the match at the leftmost position that has one.\<close>

fun re_search :: "string \<Rightarrow> string \<Rightarrow> string option" where
  "re_search lit [] = match_at lit []"
| "re_search lit (c # cs) =
     (case match_at lit (c # cs) of Some g \<Rightarrow> Some g | None \<Rightarrow> re_search lit cs)"

definition extract_sample_code_from_response :: "string \<Rightarrow> string option" where
  "extract_sample_code_from_response response =
     (case re_search success_literal response of
        Some g \<Rightarrow> Some g
      | None \<Rightarrow>
         (case re_search error_literal response of
            Some g \<Rightarrow> Some g
          | None \<Rightarrow> None))"

section \<open>The run: effects and failures\<close>

text \<open>
  What a run does to the outside, in order. \<open>Download c\<close> is the GET of sample \<open>c\<close>
  (on status 200 the body is also saved as \<open>c.xml\<close>); \<open>FetchChecklist a\<close> the GET of
  checklist \<open>a\<close>; \<open>WriteXml f doc\<close> and \<open>WriteText f s\<close> write file \<open>f\<close> of the output
  directory; \<open>Curl submission samples production\<close> is the upload of these two files
  to the production server or to the test server. Console output is not modelled.
\<close>

datatype event =
    MakeDirs
  | Download string
  | FetchChecklist string
  | WriteXml string xml
  | WriteText string string
  | Curl string "string option" bool

text \<open>A computation: the events so far, and an exception or a value.\<close>

type_synonym 'a run = "event list \<times> (error + 'a)"

definition ok :: "'a \<Rightarrow> 'a run" where
  "ok x = ([], Inr x)"

definition raise :: "error \<Rightarrow> 'a run" where
  "raise e = ([], Inl e)"

definition emit :: "event \<Rightarrow> unit run" where
  "emit ev = ([ev], Inr ())"

definition bind_run :: "'a run \<Rightarrow> ('a \<Rightarrow> 'b run) \<Rightarrow> 'b run" where
  "bind_run m f =
     (case m of
        (evs, Inl e) \<Rightarrow> (evs, Inl e)
      | (evs, Inr x) \<Rightarrow> (case f x of (evs', r) \<Rightarrow> (evs @ evs', r)))"

text \<open>
  The outside world of one run: the credentials file (\<open>None\<close> when it is missing),
  whether the output directory exists, the saved \<open>submission_response.xml\<close> (\<open>None\<close>
  when there is none), the archive's answers and what \<open>curl\<close> prints for an upload
  (\<open>None\<close> when it exits with an error). For a sample the answer is \<open>Inl e\<close> when
  \<open>requests.get\<close> raises \<open>e\<close>, \<open>Inr None\<close> for a response whose status is not 200 and
  \<open>Inr (Some doc)\<close> for status 200 with document \<open>doc\<close>. For a checklist the request
  and \<open>raise_for_status\<close> stand in one \<open>try\<close> that ends the run with \<open>exit(1)\<close>, so
  \<open>None\<close> is any of its failures.
\<close>

record env =
  credentials_file :: "(string \<times> string) option"
  output_dir_exists :: bool
  submission_response_file :: "string option"
  ena_sample_xml :: "string \<Rightarrow> error + source_sample option"
  ena_checklist_xml :: "string \<Rightarrow> checklist_doc option"
  curl_stdout :: "string \<Rightarrow> string option \<Rightarrow> bool \<Rightarrow> string option"

definition read_credentials :: "env \<Rightarrow> (string \<times> string) run" where
  "read_credentials env =
     (case credentials_file env of None \<Rightarrow> raise (SystemExit 1) | Some c \<Rightarrow> ok c)"

definition download_sample_xml :: "env \<Rightarrow> string \<Rightarrow> source_sample run" where
  "download_sample_xml env sample_code =
     bind_run (emit (Download sample_code)) (\<lambda>_.
       case ena_sample_xml env sample_code of
         Inl e \<Rightarrow> raise e
       | Inr (Some sample) \<Rightarrow> ok sample
       | Inr None \<Rightarrow>
           raise (Exception (''Failed to download XML for sample code '' @ sample_code)))"

definition submit_to_ebi :: "env \<Rightarrow> string \<Rightarrow> string \<Rightarrow> bool \<Rightarrow> string option run" where
  "submit_to_ebi env submission samples submit =
     (let samples_part = (if samples \<noteq> [] then Some samples else None) in
      bind_run (emit (Curl submission samples_part submit)) (\<lambda>_.
        case curl_stdout env submission samples_part submit of
          Some out \<Rightarrow> bind_run (emit (WriteText ''submission_response.xml'' out)) (\<lambda>_. ok (Some out))
        | None \<Rightarrow> ok None))"

section \<open>\<open>mandatory_fields_and_units\<close>\<close>

text \<open>
  The loop over the \<open>FIELD\<close> elements, on the three accumulators
  \<open>(mandatory_fields, fields_with_units, recommended_fields)\<close>.
\<close>

definition classify_field ::
  "checklist_field \<Rightarrow> string list \<times> (string, string option) dict \<times> string list \<Rightarrow>
   string list \<times> (string, string option) dict \<times> string list" where
  "classify_field field acc =
     (case acc of (mandatory_fields, fields_with_units, recommended_fields) \<Rightarrow>
       (if field_mandatory field = ''mandatory''
        then mandatory_fields @ [field_name field] else mandatory_fields,
        case field_units field of
          Some unit_value \<Rightarrow> DAList.update (field_name field) unit_value fields_with_units
        | None \<Rightarrow> fields_with_units,
        if field_mandatory field = ''recommended''
        then recommended_fields @ [field_name field] else recommended_fields))"

definition classify_fields ::
  "checklist_field list \<Rightarrow> string list \<times> (string, string option) dict \<times> string list" where
  "classify_fields field_list = fold classify_field field_list ([], DAList.empty, [])"

definition mandatory_fields_and_units ::
  "env \<Rightarrow> string \<Rightarrow> (string \<times> string list \<times> (string, string option) dict \<times> string list) run" where
  "mandatory_fields_and_units env checklist_accession =
     bind_run (emit (FetchChecklist checklist_accession)) (\<lambda>_.
       case ena_checklist_xml env checklist_accession of
         None \<Rightarrow> raise (SystemExit 1)
       | Some root \<Rightarrow> ok (descriptor_name root, classify_fields (doc_fields root)))"

section \<open>\<open>main\<close>\<close>

definition DEFAULT_CHECKLIST :: string where
  "DEFAULT_CHECKLIST = ''ERC000011''"

definition default_checklist_warning :: string where
  "default_checklist_warning =
     ''Using default checklist due to inconsistencies or missing checklist in input samples.''"

text \<open>
  What the loop over \<open>sample_codes\<close> accumulates. \<open>checklist_set\<close> is a Python set; it
  is kept as a list without duplicates (\<open>List.insert\<close>), so its \<open>len\<close> is the list's
  length and \<open>pop()\<close> on a set of one element gives that element.
\<close>

record collected =
  st_all_attributes :: "attribute_set list"
  st_sample_aliases :: "string list"
  st_common_taxon_id :: "string option"
  st_common_scientific_name :: "string option"
  st_checklist_set :: "string list"

definition initial :: collected where
  "initial = \<lparr>st_all_attributes = [], st_sample_aliases = [], st_common_taxon_id = None,
              st_common_scientific_name = None, st_checklist_set = []\<rparr>"

text \<open>
  The two checks of the loop body have one shape: when the common value is \<open>None\<close>
  take the sample's value, raise when the common value differs from the sample's, keep
  it otherwise. \<open>None\<close> is both the state before the first sample and the text of an
  empty element, as in the script.
\<close>

definition check_common ::
  "string \<Rightarrow> string option \<Rightarrow> string option \<Rightarrow> string \<Rightarrow> string option run" where
  "check_common what common v sample_code =
     (case common of
        None \<Rightarrow> ok v
      | Some c \<Rightarrow>
          if Some c \<noteq> v
          then raise (ValueError (what @ '' mismatch for sample '' @ sample_code @ '': '' @
                                  str_of v @ '' vs '' @ c))
          else ok (Some c))"

text \<open>
  \<open>Collect checklists\<close>: the value of the sample's \<open>ENA-CHECKLIST\<close> attribute goes
  into the set when the attribute is there and its value passes \<open>if checklist_value:\<close>.
\<close>

definition collect_checklist :: "attribute_set \<Rightarrow> string list \<Rightarrow> string list" where
  "collect_checklist attributes checklist_set =
     (let checklist_value =
            (case DAList.lookup attributes checklist_tag of
               None \<Rightarrow> None | Some (v, units) \<Rightarrow> Some v)
      in if truthy checklist_value
         then (case checklist_value of
                 None \<Rightarrow> checklist_set | Some v \<Rightarrow> List.insert v checklist_set)
         else checklist_set)"

text \<open>The body of the loop over \<open>sample_codes\<close>.\<close>

definition process_sample :: "env \<Rightarrow> collected \<Rightarrow> string \<Rightarrow> collected run" where
  "process_sample env st sample_code =
     bind_run (download_sample_xml env sample_code) (\<lambda>sample.
     bind_run (check_common ''Taxon ID'' (st_common_taxon_id st) (taxon_id sample) sample_code)
       (\<lambda>common_taxon_id.
     bind_run (check_common ''Scientific name'' (st_common_scientific_name st)
                 (scientific_name sample) sample_code)
       (\<lambda>common_scientific_name.
       let attributes = parse_sample_attributes sample
       in ok \<lparr>st_all_attributes = st_all_attributes st @ [attributes],
               st_sample_aliases = st_sample_aliases st @ [sample_alias sample],
               st_common_taxon_id = common_taxon_id,
               st_common_scientific_name = common_scientific_name,
               st_checklist_set = collect_checklist attributes (st_checklist_set st)\<rparr>)))"

fun main_collect :: "env \<Rightarrow> string list \<Rightarrow> collected \<Rightarrow> collected run" where
  "main_collect env [] st = ok st"
| "main_collect env (sample_code # rest) st =
     bind_run (process_sample env st sample_code) (main_collect env rest)"

text \<open>
  \<open>Find common attributes\<close>: the tags of the first sample whose (value, units) every
  sample has, in the first sample's order.
\<close>

definition find_common_attributes :: "attribute_set list \<Rightarrow> attribute_set" where
  "find_common_attributes all_attributes =
     (case all_attributes of
        [] \<Rightarrow> DAList.empty
      | first_attributes # _ \<Rightarrow>
          fold (\<lambda>(t, v) common_attributes.
                  if list_all (\<lambda>attributes. case DAList.lookup attributes t of
                                               None \<Rightarrow> False | Some w \<Rightarrow> v = w)
                       all_attributes
                  then DAList.update t v common_attributes else common_attributes)
            (items first_attributes) DAList.empty)"

text \<open>
  \<open>Use provided checklist or the common checklist from attributes\<close>: the final
  checklist and the warnings.
\<close>

definition choose_checklist :: "string option \<Rightarrow> string list \<Rightarrow> string \<times> string list" where
  "choose_checklist checklist checklist_set =
     (case (if truthy checklist then checklist else None) of
        Some c \<Rightarrow> (c, [])
      | None \<Rightarrow>
          (case checklist_set of
             [v] \<Rightarrow> (v, [])
           | _ \<Rightarrow> (DEFAULT_CHECKLIST, [default_checklist_warning])))"

text \<open>The submission branch after the loop.\<close>

definition main_compose ::
  "env \<Rightarrow> string list \<Rightarrow> bool \<Rightarrow> string option \<Rightarrow> string option \<Rightarrow> string option \<Rightarrow> bool \<Rightarrow>
   collected \<Rightarrow> unit run" where
  "main_compose env sample_codes submit checklist alias center force st =
     (if st_checklist_set st \<noteq> [] \<and> length (st_checklist_set st) > 1 \<and> \<not> truthy checklist
      then raise (ValueError
             ''Inconsistent checklists found in input samples and no checklist provided.'')
      else
        (let common_attributes = find_common_attributes (st_all_attributes st)
         in case choose_checklist checklist (st_checklist_set st) of
              (final_checklist, warnings) \<Rightarrow>
         bind_run (mandatory_fields_and_units env final_checklist)
           (\<lambda>(name, mandatory_fields, fields_with_units, recommended_fields).
             let virtual_sample_alias =
                   (case alias of
                      None \<Rightarrow> ''virtual_sample_'' @ join ''_'' sample_codes
                    | Some a \<Rightarrow> if a \<noteq> [] then a
                                else ''virtual_sample_'' @ join ''_'' sample_codes);
                 submit' = (if warnings \<noteq> [] \<and> submit \<and> \<not> force then False else submit);
                 virtual_sample =
                   create_virtual_sample common_attributes sample_codes (st_common_taxon_id st)
                     (st_common_scientific_name st) virtual_sample_alias center final_checklist
                     mandatory_fields;
                 sample_set = Element ''SAMPLE_SET'' [] None [virtual_sample]
             in bind_run (emit (WriteXml ''virtual_sample.xml'' sample_set)) (\<lambda>_.
                bind_run (emit (WriteXml ''submission.xml'' create_submission_xml)) (\<lambda>_.
                bind_run (submit_to_ebi env ''submission.xml'' ''virtual_sample.xml'' submit')
                  (\<lambda>response. ok ()))))))"

text \<open>The release branch. \<open>response\<close> is what \<open>open\<close> and \<open>read\<close> give.\<close>

definition main_release :: "env \<Rightarrow> bool \<Rightarrow> string option \<Rightarrow> unit run" where
  "main_release env submit response_file =
     (case response_file of
        None \<Rightarrow> raise (FileNotFoundError ''submission_response.xml'')
      | Some response \<Rightarrow>
          (case (case extract_sample_code_from_response response of
                   None \<Rightarrow> None
                 | Some sample_code \<Rightarrow> if sample_code \<noteq> [] then Some sample_code else None) of
             None \<Rightarrow> raise (ValueError ''No sample code found in submission response.'')
           | Some sample_code \<Rightarrow>
               bind_run (emit (WriteXml ''release.xml'' (create_release_xml sample_code))) (\<lambda>_.
               bind_run (submit_to_ebi env ''release.xml'' ''virtual_sample.xml'' submit)
                 (\<lambda>response. ok ()))))"

definition main ::
  "env \<Rightarrow> string list \<Rightarrow> bool \<Rightarrow> bool \<Rightarrow> string option \<Rightarrow> string option \<Rightarrow> string option \<Rightarrow>
   bool \<Rightarrow> unit run" where
  "main env sample_codes submit release checklist alias center force =
     bind_run (read_credentials env) (\<lambda>(account, password).
       if \<not> release \<and> output_dir_exists env then raise (SystemExit 1)
       else
         bind_run (if \<not> output_dir_exists env then emit MakeDirs else ok ()) (\<lambda>_.
           if release
           then main_release env submit
                  (if output_dir_exists env then submission_response_file env else None)
           else bind_run (main_collect env sample_codes initial)
                  (main_compose env sample_codes submit checklist alias center force)))"

section \<open>Notions used to state the properties\<close>

text \<open>
  An accession as the two patterns capture it: \<open>ERS\<close> and one or more decimal digits,
  that is, a rest that is not empty and is a run of decimal digits from end to end. A
  shaped accession is the literal, the accession and the closing quote; \<open>occurs_in x r\<close>
  says that \<open>x\<close> is a contiguous part of \<open>r\<close>.
\<close>

definition is_accession :: "string \<Rightarrow> bool" where
  "is_accession a =
     (take 3 a = ''ERS'' \<and> drop 3 a \<noteq> [] \<and> digits_len (drop 3 a) = length (drop 3 a))"

definition shaped :: "string \<Rightarrow> string \<Rightarrow> string" where
  "shaped lit a = lit @ a @ [dquote]"

fun occurs_in :: "string \<Rightarrow> string \<Rightarrow> bool" where
  "occurs_in x [] = (x = [])"
| "occurs_in x (c # cs) = (take (length x) (c # cs) = x \<or> occurs_in x cs)"

text \<open>A response that announces one accession in an error message and another in a receipt.\<close>

definition both_response :: string where
  "both_response =
     ''Error: accession: '' @ [dquote] @ ''ERS111'' @ [dquote] @ '' <SAMPLE accession='' @ [dquote] @
     ''ERS222'' @ [dquote] @ '' alias='' @ [dquote] @ ''v'' @ [dquote] @ ''/>''"





text \<open>
  The units a checklist declares for a field name: those of the last \<open>FIELD\<close> of that
  name that has a \<open>UNITS\<close> element, since a later assignment to the same key wins.
\<close>

definition declared_units :: "checklist_field list \<Rightarrow> string \<Rightarrow> string option option" where
  "declared_units field_list n =
     (case filter (\<lambda>f. field_name f = n \<and> field_units f \<noteq> None) field_list of
        [] \<Rightarrow> None
      | g # gs \<Rightarrow> field_units (last (g # gs)))"

text \<open>A checklist with the three kinds of field, one of them with units.\<close>

definition example_checklist :: checklist_doc where
  "example_checklist =
     \<lparr>descriptor_name = ''ENA default sample checklist'',
      doc_fields =
        [\<lparr>field_name = ''collection date'', field_units = None, field_mandatory = ''mandatory''\<rparr>,
         \<lparr>field_name = ''depth'', field_units = Some (Some ''m''), field_mandatory = ''recommended''\<rparr>,
         \<lparr>field_name = ''strain'', field_units = None, field_mandatory = ''optional''\<rparr>]\<rparr>"

definition example_env :: env where
  "example_env =
     \<lparr>credentials_file = Some (''Webin-1'', ''secret''),
      output_dir_exists = False,
      submission_response_file = None,
      ena_sample_xml = (\<lambda>c. Inr None),
      ena_checklist_xml = (\<lambda>a. if a = ''ERC000011'' then Some example_checklist else None),
      curl_stdout = (\<lambda>s x p. None)\<rparr>"

text \<open>Two attribute sets that agree on tag \<open>A\<close> and differ on tag \<open>B\<close>.\<close>

definition attributes_1 :: attribute_set where
  "attributes_1 =
     DAList.update ''B'' (''x'', None) (DAList.update ''A'' (''1'', None) DAList.empty)"

definition attributes_2 :: attribute_set where
  "attributes_2 =
     DAList.update ''B'' (''y'', None) (DAList.update ''A'' (''1'', None) DAList.empty)"

text \<open>
  Reading a composed record back, the way \<open>parse_sample_attributes\<close> reads a sample:
  the \<open>SAMPLE_ATTRIBUTE\<close> children of \<open>SAMPLE_ATTRIBUTES\<close> in order, each as the texts of
  its \<open>TAG\<close>, \<open>VALUE\<close> and \<open>UNITS\<close> (\<open>None\<close> for an absent element).
\<close>

definition child_text :: "xml \<Rightarrow> string \<Rightarrow> string option" where
  "child_text e t = (case find_child e t of None \<Rightarrow> None | Some c \<Rightarrow> elem_text c)"

definition read_attribute :: "xml \<Rightarrow> string option \<times> string option \<times> string option" where
  "read_attribute a = (child_text a ''TAG'', child_text a ''VALUE'', child_text a ''UNITS'')"

definition emitted_attributes :: "xml \<Rightarrow> (string option \<times> string option \<times> string option) list" where
  "emitted_attributes sample =
     (case find_child sample ''SAMPLE_ATTRIBUTES'' of
        None \<Rightarrow> []
      | Some e \<Rightarrow> map read_attribute (elem_children e))"

text \<open>The units an attribute is emitted with: those it has, when they pass \<open>if units:\<close>.\<close>

definition emitted_units :: "string option \<Rightarrow> string option" where
  "emitted_units units = (if truthy units then units else None)"

text \<open>
  Reading the description back: the text after the fixed sentence and before the final
  full stop, split at every comma followed by a space.
\<close>

fun split_codes :: "string \<Rightarrow> string \<Rightarrow> string list" where
  "split_codes acc [] = [acc]"
| "split_codes acc [c] = [acc @ [c]]"
| "split_codes acc (c # d # cs) =
     (if c = CHR '','' \<and> d = CHR '' '' then acc # split_codes [] cs
      else split_codes (acc @ [c]) (d # cs))"

definition title_sample_codes :: "string \<Rightarrow> string list" where
  "title_sample_codes title =
     (let body = butlast (drop (length title_prefix) title)
      in if body = [] then [] else split_codes [] body)"

text \<open>A reconciled set with the reserved tag, a tag with units and one without.\<close>

definition example_common :: attribute_set where
  "example_common =
     DAList.update ''sex'' (''female'', None)
       (DAList.update ''depth'' (''10'', Some ''m'')
         (DAList.update ''ENA-CHECKLIST'' (''ERC000053'', None) DAList.empty))"

definition example_record :: xml where
  "example_record =
     create_virtual_sample example_common [''ERS1'', ''ERS2''] (Some ''9606'')
       (Some ''Homo sapiens'') ''virtual_sample_ERS1_ERS2'' None ''ERC000011''
       [''collection date'', ''depth'']"

text \<open>
  Four samples of the archive: the first two of one species with different checklists,
  the third of another species, and the fourth like the first but with an empty
  \<open>SCIENTIFIC_NAME\<close> element.
\<close>

definition sample_ERS1 :: source_sample where
  "sample_ERS1 =
     \<lparr>sample_alias = ''first'', taxon_id = Some ''9606'',
      scientific_name = Some ''Homo sapiens'',
      sample_attributes =
        [(''ENA-CHECKLIST'', ''ERC000011'', None), (''sex'', ''female'', None),
         (''depth'', ''10'', Some ''m'')]\<rparr>"

definition sample_ERS2 :: source_sample where
  "sample_ERS2 =
     \<lparr>sample_alias = ''second'', taxon_id = Some ''9606'',
      scientific_name = Some ''Homo sapiens'',
      sample_attributes =
        [(''ENA-CHECKLIST'', ''ERC000053'', None), (''sex'', ''female'', None),
         (''depth'', ''12'', Some ''m'')]\<rparr>"

definition sample_ERS3 :: source_sample where
  "sample_ERS3 =
     \<lparr>sample_alias = ''third'', taxon_id = Some ''10090'',
      scientific_name = Some ''Mus musculus'',
      sample_attributes = [(''ENA-CHECKLIST'', ''ERC000011'', None)]\<rparr>"

definition sample_ERS4 :: source_sample where
  "sample_ERS4 =
     \<lparr>sample_alias = ''fourth'', taxon_id = Some ''9606'', scientific_name = None,
      sample_attributes =
        [(''ENA-CHECKLIST'', ''ERC000011'', None), (''sex'', ''female'', None)]\<rparr>"

definition receipt_text :: string where
  "receipt_text = ''<RECEIPT><SAMPLE accession='' @ [dquote] @ ''ERS777'' @ [dquote] @ ''/></RECEIPT>''"

text \<open>A first run: credentials present, no output directory yet.\<close>

definition submit_env :: env where
  "submit_env =
     \<lparr>credentials_file = Some (''Webin-1'', ''secret''),
      output_dir_exists = False,
      submission_response_file = None,
      ena_sample_xml =
        (\<lambda>c. if c = ''ERS1'' then Inr (Some sample_ERS1)
             else if c = ''ERS2'' then Inr (Some sample_ERS2)
             else if c = ''ERS3'' then Inr (Some sample_ERS3)
             else if c = ''ERS4'' then Inr (Some sample_ERS4) else Inr None),
      ena_checklist_xml = (\<lambda>a. if a = ''ERC000011'' then Some example_checklist else None),
      curl_stdout = (\<lambda>s x p. Some receipt_text)\<rparr>"

text \<open>A later run on the directory the first one left, with and without an accession.\<close>

definition release_env :: "string \<Rightarrow> env" where
  "release_env response =
     \<lparr>credentials_file = Some (''Webin-1'', ''secret''),
      output_dir_exists = True,
      submission_response_file = Some response,
      ena_sample_xml = (\<lambda>c. Inr None),
      ena_checklist_xml = (\<lambda>a. None),
      curl_stdout = (\<lambda>s x p. Some ''<RECEIPT/>'')\<rparr>"

text \<open>
  A sample agrees with the first one when both taxonomy fields are equal; the message
  of the exception for a sample that does not.
\<close>

definition agrees :: "source_sample \<Rightarrow> source_sample \<Rightarrow> bool" where
  "agrees s0 s = (taxon_id s = taxon_id s0 \<and> scientific_name s = scientific_name s0)"

definition mismatch_message :: "source_sample \<Rightarrow> source_sample \<Rightarrow> string \<Rightarrow> string" where
  "mismatch_message s0 s sample_code =
     (if taxon_id s \<noteq> taxon_id s0
      then ''Taxon ID mismatch for sample '' @ sample_code @ '': '' @ str_of (taxon_id s) @
           '' vs '' @ str_of (taxon_id s0)
      else ''Scientific name mismatch for sample '' @ sample_code @ '': '' @
           str_of (scientific_name s) @ '' vs '' @ str_of (scientific_name s0))"

text \<open>The taxonomy of a composed record: \<open>sample.find('SAMPLE_NAME').find(...).text\<close>.\<close>

definition record_taxon_id :: "xml \<Rightarrow> string option" where
  "record_taxon_id sample =
     (case find_child sample ''SAMPLE_NAME'' of None \<Rightarrow> None | Some n \<Rightarrow> child_text n ''TAXON_ID'')"

definition record_scientific_name :: "xml \<Rightarrow> string option" where
  "record_scientific_name sample =
     (case find_child sample ''SAMPLE_NAME'' of
        None \<Rightarrow> None | Some n \<Rightarrow> child_text n ''SCIENTIFIC_NAME'')"

text \<open>The samples a list of codes stands for in the example archive.\<close>

definition example_samples :: "nat \<Rightarrow> source_sample" where
  "example_samples i = (if i = 0 then sample_ERS1 else if i = 1 then sample_ERS2 else sample_ERS3)"

text \<open>The record a run on the first two samples composes under checklist \<open>ERC000011\<close>.\<close>

definition example_virtual_sample :: xml where
  "example_virtual_sample =
     create_virtual_sample
       (find_common_attributes
          [parse_sample_attributes sample_ERS1, parse_sample_attributes sample_ERS2])
       [''ERS1'', ''ERS2''] (Some ''9606'') (Some ''Homo sapiens'') ''virtual_sample_ERS1_ERS2''
       None ''ERC000011'' [''collection date'']"

text \<open>
  The record a run on the fourth and the first sample composes: the scientific name is
  the second sample's.
\<close>

definition nameless_virtual_sample :: xml where
  "nameless_virtual_sample =
     create_virtual_sample
       (find_common_attributes
          [parse_sample_attributes sample_ERS4, parse_sample_attributes sample_ERS1])
       [''ERS4'', ''ERS1''] (Some ''9606'') (Some ''Homo sapiens'') ''virtual_sample_ERS4_ERS1''
       None ''ERC000011'' [''collection date'']"

section \<open>Properties of the accession patterns\<close>

lemma occurs_in_iff: "occurs_in x r \<longleftrightarrow> (\<exists>pre post. r = pre @ x @ post)"
proof (induction r)
  case Nil
  then show ?case by auto
next
  case (Cons c cs)
  show ?case
  proof
    assume "occurs_in x (c # cs)"
    then consider "take (length x) (c # cs) = x" | "occurs_in x cs" by auto
    then show "\<exists>pre post. c # cs = pre @ x @ post"
    proof cases
      case 1
      then have "c # cs = [] @ x @ drop (length x) (c # cs)"
        by (metis append_Nil append_take_drop_id)
      then show ?thesis by blast
    next
      case 2
      then obtain pre post where "cs = pre @ x @ post" using Cons.IH by blast
      then have "c # cs = (c # pre) @ x @ post" by simp
      then show ?thesis by blast
    qed
  next
    assume "\<exists>pre post. c # cs = pre @ x @ post"
    then obtain pre post where eq: "c # cs = pre @ x @ post" by blast
    show "occurs_in x (c # cs)"
    proof (cases pre)
      case Nil
      then have "take (length x) (c # cs) = x" using eq by simp
      then show ?thesis by simp
    next
      case (Cons p ps)
      then have "cs = ps @ x @ post" using eq by simp
      then show ?thesis using Cons.IH by auto
    qed
  qed
qed

lemma utf8_head_Nil: "utf8_head [] = None"
  by (simp add: utf8_head_def)

lemma utf8_head_Cons:
  "utf8_head (b0 # r) =
     (if lead_width b0 = 0 \<or> Suc (length r) < lead_width b0 then None
      else (case decode_sequence (take (lead_width b0) (b0 # r)) of
              None \<Rightarrow> None | Some cp \<Rightarrow> Some (cp, lead_width b0)))"
  by (simp add: utf8_head_def Let_def)

lemma utf8_head_width:
  "utf8_head s = Some (cp, w) \<Longrightarrow> 0 < w \<and> w \<le> length s"
proof (cases s)
  case Nil
  assume "utf8_head s = Some (cp, w)"
  then show ?thesis using Nil by (simp add: utf8_head_Nil)
next
  case (Cons b0 r)
  assume "utf8_head s = Some (cp, w)"
  then show ?thesis
    unfolding Cons utf8_head_Cons by (auto split: if_splits option.splits)
qed

lemma utf8_head_lead:
  "utf8_head (b0 # r) = Some (cp, w) \<Longrightarrow> w = lead_width b0"
  unfolding utf8_head_Cons by (auto split: if_splits option.splits)

lemma utf8_head_append:
  assumes "utf8_head s = Some (cp, w)"
  shows "utf8_head (s @ t) = Some (cp, w)"
proof (cases s)
  case Nil
  then show ?thesis using assms by (simp add: utf8_head_Nil)
next
  case (Cons b0 r)
  have w: "w = lead_width b0" using assms Cons utf8_head_lead by blast
  have b: "0 < w \<and> w \<le> length s" using assms by (rule utf8_head_width)
  have d: "decode_sequence (take w (b0 # r)) = Some cp"
    using assms unfolding Cons utf8_head_Cons w by (auto split: if_splits option.splits)
  have "take w ((b0 # r) @ t) = take w (b0 # r)" using b Cons by (simp del: append_Cons)
  then have t: "take w (b0 # r @ t) = take w (b0 # r)" by simp
  have "utf8_head (b0 # r @ t) = Some (cp, w)"
    unfolding utf8_head_Cons using w b d t Cons by auto
  then show ?thesis using Cons by simp
qed

lemma utf8_head_take:
  assumes "utf8_head s = Some (cp, w)"
  shows "utf8_head (take w s) = Some (cp, w)"
proof (cases s)
  case Nil
  then show ?thesis using assms by (simp add: utf8_head_Nil)
next
  case (Cons b0 r)
  have w: "w = lead_width b0" using assms Cons utf8_head_lead by blast
  have b: "0 < w \<and> w \<le> length s" using assms by (rule utf8_head_width)
  have d: "decode_sequence (take w (b0 # r)) = Some cp"
    using assms unfolding Cons utf8_head_Cons w by (auto split: if_splits option.splits)
  obtain m where m: "w = Suc m" using b by (cases w) auto
  have tk: "take w (b0 # r) = b0 # take m r" using m by simp
  have len: "length (take m r) = m" using b m Cons by simp
  have "utf8_head (b0 # take m r) = Some (cp, w)"
    unfolding utf8_head_Cons using w d tk len m by auto
  then show ?thesis using Cons tk by simp
qed

lemma digit_width_Nil: "digit_width [] = 0"
  by (simp add: digit_width_def utf8_head_Nil)

lemma digit_width_bounds: "digit_width s \<le> length s"
  using utf8_head_width [of s]
  by (auto simp: digit_width_def split: option.splits)

lemma digit_width_append: "0 < digit_width s \<Longrightarrow> digit_width (s @ t) = digit_width s"
  using utf8_head_append [of s]
  by (auto simp: digit_width_def split: option.splits if_splits)

lemma digit_width_take: "digit_width (take (digit_width s) s) = digit_width s"
proof (cases "utf8_head s")
  case None
  then show ?thesis by (simp add: digit_width_def utf8_head_Nil)
next
  case (Some p)
  obtain cp w where p: "p = (cp, w)" by (cases p)
  show ?thesis
  proof (cases "is_decimal cp")
    case True
    then show ?thesis using Some p utf8_head_take [of s cp w] by (simp add: digit_width_def)
  next
    case False
    then show ?thesis using Some p by (simp add: digit_width_def utf8_head_Nil)
  qed
qed

lemma digit_width_dquote: "digit_width (dquote # s) = 0"
  by (simp add: digit_width_def utf8_head_Cons lead_width_def decode_sequence_def is_decimal_def
      unicode_decimal_zeros_def dquote_def)

lemma digits_len_step:
  "digits_len s = (if digit_width s = 0 then 0 else digit_width s + digits_len (drop (digit_width s) s))"
proof (cases s)
  case Nil
  then show ?thesis by (simp add: digit_width_Nil)
next
  case (Cons b bs)
  then show ?thesis by (cases "digit_width (b # bs)") simp_all
qed

lemma digits_len_bounds: "digits_len s \<le> length s"
proof (induction s rule: length_induct)
  case (1 s)
  show ?case
  proof (cases "digit_width s = 0")
    case True
    then show ?thesis by (subst digits_len_step) simp
  next
    case False
    let ?w = "digit_width s"
    have w: "?w \<le> length s" by (rule digit_width_bounds)
    then have "length (drop ?w s) < length s" using False by simp
    then have "digits_len (drop ?w s) \<le> length (drop ?w s)" using 1 by blast
    then have "?w + digits_len (drop ?w s) \<le> length s" using w by simp
    then show ?thesis using False by (subst digits_len_step) simp
  qed
qed

lemma digits_len_append:
  "digits_len ds = length ds \<Longrightarrow> digits_len (ds @ t) = length ds + digits_len t"
proof (induction ds rule: length_induct)
  case (1 ds)
  show ?case
  proof (cases "ds = []")
    case True
    then show ?thesis by simp
  next
    case False
    let ?w = "digit_width ds"
    have pos: "?w \<noteq> 0"
      using False "1.prems" by (subst (asm) digits_len_step) (auto split: if_splits)
    have w: "?w \<le> length ds" by (rule digit_width_bounds)
    have rest: "digits_len (drop ?w ds) = length (drop ?w ds)"
      using "1.prems" pos w by (subst (asm) digits_len_step) simp
    have shorter: "length (drop ?w ds) < length ds" using pos w by simp
    have IH: "digits_len (drop ?w ds @ t) = length (drop ?w ds) + digits_len t"
      using 1 shorter rest by blast
    have wa: "digit_width (ds @ t) = ?w" using pos by (simp add: digit_width_append)
    have "digits_len (ds @ t) = ?w + digits_len (drop ?w (ds @ t))"
      using wa pos by (subst digits_len_step) simp
    also have "drop ?w (ds @ t) = drop ?w ds @ t" using w by simp
    finally show ?thesis using IH w by simp
  qed
qed

lemma digits_len_take: "digits_len (take (digits_len s) s) = digits_len s"
proof (induction s rule: length_induct)
  case (1 s)
  show ?case
  proof (cases "digit_width s = 0")
    case True
    then have "digits_len s = 0" by (subst digits_len_step) simp
    then show ?thesis by simp
  next
    case False
    let ?w = "digit_width s"
    let ?r = "drop ?w s"
    have w: "?w \<le> length s" by (rule digit_width_bounds)
    have n: "digits_len s = ?w + digits_len ?r"
      using False by (subst digits_len_step) simp
    have shorter: "length ?r < length s" using False w by simp
    have IH: "digits_len (take (digits_len ?r) ?r) = digits_len ?r"
      using 1 shorter by blast
    have split: "take (digits_len s) s = take ?w s @ take (digits_len ?r) ?r"
      unfolding n by (simp add: take_add)
    have hw: "digit_width (take ?w s) = ?w" by (rule digit_width_take)
    have full: "digits_len (take ?w s) = length (take ?w s)"
      using hw False w by (subst digits_len_step) simp
    have "digits_len (take ?w s @ take (digits_len ?r) ?r) =
          length (take ?w s) + digits_len (take (digits_len ?r) ?r)"
      by (rule digits_len_append [OF full])
    then show ?thesis using split IH n w by simp
  qed
qed

lemma digits_len_dquote: "digits_len (dquote # s) = 0"
  by (simp add: digit_width_dquote)

lemma match_at_sound:
  assumes "match_at lit s = Some a"
  shows "is_accession a \<and> (\<exists>post. s = shaped lit a @ post)"
proof -
  let ?rest = "drop (length lit + 3) s"
  let ?n = "digits_len ?rest"
  let ?ds = "take ?n ?rest"
  from assms have lit: "take (length lit) s = lit" and ers: "take 3 (drop (length lit) s) = ''ERS''"
    and n: "?n \<noteq> 0" and q: "take 1 (drop ?n ?rest) = [dquote]" and a: "a = ''ERS'' @ ?ds"
    by (auto simp: match_at_def Let_def split: if_splits)
  have le: "?n \<le> length ?rest" by (rule digits_len_bounds)
  have ne: "?ds \<noteq> []" using n le by auto
  have "digits_len ?ds = ?n" by (rule digits_len_take)
  then have full: "digits_len ?ds = length ?ds" using le by simp
  have acc: "is_accession a"
    using ne full a by (simp add: is_accession_def)
  have s1: "s = lit @ drop (length lit) s" using lit by (metis append_take_drop_id)
  have s2: "drop (length lit) s = ''ERS'' @ ?rest"
    using ers by (metis append_take_drop_id drop_drop add.commute)
  have s3: "?rest = ?ds @ drop ?n ?rest" by (rule append_take_drop_id [symmetric])
  have s4: "drop ?n ?rest = dquote # drop 1 (drop ?n ?rest)"
    using q by (metis append_Cons append_Nil append_take_drop_id)
  have "s = lit @ ''ERS'' @ ?ds @ dquote # drop 1 (drop ?n ?rest)"
    using s1 s2 s3 s4 by metis
  then have "s = shaped lit a @ drop 1 (drop ?n ?rest)"
    using a by (simp add: shaped_def)
  then show ?thesis using acc by blast
qed

lemma match_at_complete:
  assumes "is_accession a"
  shows "match_at lit (shaped lit a @ post) = Some a"
proof -
  obtain ds where a: "a = ''ERS'' @ ds" and ds: "ds \<noteq> []" and full: "digits_len ds = length ds"
    using assms unfolding is_accession_def
    by (metis append_take_drop_id)
  have n: "digits_len (ds @ dquote # post) = length ds"
    using digits_len_append [OF full, of "dquote # post"]
    by (simp only: digits_len_dquote add_0_right)
  show ?thesis
    using ds n by (simp add: match_at_def shaped_def a)
qed

lemma re_search_sound:
  "re_search lit r = Some a \<Longrightarrow> is_accession a \<and> occurs_in (shaped lit a) r"
proof (induction r)
  case Nil
  then show ?case using match_at_sound[of lit "[]" a] by (auto simp: shaped_def)
next
  case (Cons c cs)
  show ?case
  proof (cases "match_at lit (c # cs)")
    case None
    then show ?thesis using Cons by simp
  next
    case (Some g)
    then have "g = a" using Cons.prems by simp
    then obtain post where "is_accession a" "c # cs = shaped lit a @ post"
      using match_at_sound[OF Some] by blast
    then show ?thesis using occurs_in_iff[of "shaped lit a" "c # cs"] by (metis append_Nil)
  qed
qed

lemma re_search_complete:
  "is_accession a \<Longrightarrow> occurs_in (shaped lit a) r \<Longrightarrow> \<exists>b. re_search lit r = Some b"
proof (induction r)
  case Nil
  then show ?case by (simp add: shaped_def)
next
  case (Cons c cs)
  show ?case
  proof (cases "match_at lit (c # cs)")
    case (Some g)
    then show ?thesis by simp
  next
    case None
    have "take (length (shaped lit a)) (c # cs) \<noteq> shaped lit a"
    proof
      assume "take (length (shaped lit a)) (c # cs) = shaped lit a"
      then have "c # cs = shaped lit a @ drop (length (shaped lit a)) (c # cs)"
        by (metis append_take_drop_id)
      then have "match_at lit (c # cs) = Some a"
        using match_at_complete[OF Cons.prems(1)] by metis
      then show False using None by simp
    qed
    then have "occurs_in (shaped lit a) cs" using Cons.prems(2) by simp
    then show ?thesis using Cons.IH Cons.prems(1) None by simp
  qed
qed

lemma extract_eq:
  "extract_sample_code_from_response r =
     (case re_search success_literal r of Some g \<Rightarrow> Some g | None \<Rightarrow> re_search error_literal r)"
  by (simp add: extract_sample_code_from_response_def split: option.splits)

text \<open>
  C5. Extraction tries the success pattern first and the error pattern second. A text
  that holds a success-shaped accession yields the success pattern's match, whatever
  error-shaped accession it also holds; without a success match the result is the error
  pattern's; with no match at all the result is \<open>None\<close>. The function is total: it raises
  on no text.
\<close>

theorem extraction_precedence:
  "(is_accession a \<and> occurs_in (shaped success_literal a) r \<longrightarrow>
      (\<exists>b. extract_sample_code_from_response r = Some b \<and>
           re_search success_literal r = Some b \<and>
           is_accession b \<and> occurs_in (shaped success_literal b) r))
   \<and> (re_search success_literal r = None \<longrightarrow>
        extract_sample_code_from_response r = re_search error_literal r)
   \<and> (re_search success_literal r = None \<and> re_search error_literal r = None \<longrightarrow>
        extract_sample_code_from_response r = None)"
proof (intro conjI impI)
  assume "is_accession a \<and> occurs_in (shaped success_literal a) r"
  then obtain b where b: "re_search success_literal r = Some b"
    using re_search_complete by blast
  then have "extract_sample_code_from_response r = Some b"
    by (simp add: extract_eq)
  then show "\<exists>b. extract_sample_code_from_response r = Some b \<and>
           re_search success_literal r = Some b \<and>
           is_accession b \<and> occurs_in (shaped success_literal b) r"
    using b re_search_sound by blast
next
  assume "re_search success_literal r = None"
  then show "extract_sample_code_from_response r = re_search error_literal r"
    by (simp add: extract_eq)
next
  assume "re_search success_literal r = None \<and> re_search error_literal r = None"
  then show "extract_sample_code_from_response r = None"
    by (simp add: extract_eq)
qed

theorem extraction_precedence_witness:
  "is_accession ''ERS222'' \<and> occurs_in (shaped success_literal ''ERS222'') both_response \<and>
   is_accession ''ERS111'' \<and> occurs_in (shaped error_literal ''ERS111'') both_response \<and>
   extract_sample_code_from_response both_response = Some ''ERS222'' \<and>
   re_search success_literal ''no accession here'' = None \<and>
   re_search error_literal ''no accession here'' = None \<and>
   extract_sample_code_from_response ''no accession here'' = None"
  using extraction_precedence [of "''ERS222''" both_response]
        extraction_precedence [of "''ERS222''" "''no accession here''"]
  by (simp add: both_response_def success_literal_def error_literal_def dquote_def
      match_at_def digit_width_def utf8_head_Cons utf8_head_Nil lead_width_def decode_sequence_def
      payload_def is_decimal_def unicode_decimal_zeros_def continuation_def is_accession_def shaped_def)

lemma extract_sound:
  assumes "extract_sample_code_from_response r = Some a"
  shows "is_accession a \<and>
      (occurs_in (shaped success_literal a) r \<or> occurs_in (shaped error_literal a) r)"
proof (cases "re_search success_literal r")
  case None
  then have "re_search error_literal r = Some a" using assms by (simp add: extract_eq)
  then show ?thesis using re_search_sound by blast
next
  case (Some g)
  then have "re_search success_literal r = Some a" using assms by (simp add: extract_eq)
  then show ?thesis using re_search_sound by blast
qed



section \<open>Properties of dictionaries\<close>

lemma keys_update: "set (keys (DAList.update k v d)) = insert k (set (keys d))"
  by (simp add: keys_def DAList.update.rep_eq AList.dom_update)

lemma keys_empty: "keys DAList.empty = []"
  by (simp add: keys_def DAList.empty.rep_eq)

lemma in_keys_iff: "k \<in> set (keys d) \<longleftrightarrow> DAList.lookup d k \<noteq> None"
  by (simp add: keys_def DAList.lookup.rep_eq map_of_eq_None_iff)

section \<open>Properties of the checklist resolver\<close>

lemma declared_units_last:
  assumes "filter (\<lambda>f. field_name f = n \<and> field_units f \<noteq> None) fs = g # gs"
  shows "field_units (last (g # gs)) \<noteq> None"
proof -
  have "last (g # gs) \<in> set (filter (\<lambda>f. field_name f = n \<and> field_units f \<noteq> None) fs)"
    using assms by (metis last_in_set list.distinct(1))
  then show ?thesis by simp
qed

lemma declared_units_None_iff:
  "declared_units fs n = None \<longleftrightarrow>
     filter (\<lambda>f. field_name f = n \<and> field_units f \<noteq> None) fs = []"
  using declared_units_last [of n fs]
  by (cases "filter (\<lambda>f. field_name f = n \<and> field_units f \<noteq> None) fs")
     (simp_all add: declared_units_def)

lemma declared_units_Cons:
  "declared_units (f # fs) n =
     (case declared_units fs n of
        Some x \<Rightarrow> Some x
      | None \<Rightarrow> if field_name f = n then field_units f else None)"
proof (cases "declared_units fs n")
  case None
  then have "filter (\<lambda>f. field_name f = n \<and> field_units f \<noteq> None) fs = []"
    by (simp add: declared_units_None_iff)
  then show ?thesis using None by (auto simp: declared_units_def)
next
  case (Some x)
  then obtain g gs where gs: "filter (\<lambda>f. field_name f = n \<and> field_units f \<noteq> None) fs = g # gs"
    using declared_units_None_iff [of fs n]
    by (cases "filter (\<lambda>f. field_name f = n \<and> field_units f \<noteq> None) fs") auto
  then show ?thesis using Some by (auto simp: declared_units_def)
qed

lemma fold_classify_field:
  "fold classify_field fs (m, u, r) = (m', u', r') \<Longrightarrow>
     m' = m @ map field_name (filter (\<lambda>f. field_mandatory f = ''mandatory'') fs) \<and>
     r' = r @ map field_name (filter (\<lambda>f. field_mandatory f = ''recommended'') fs) \<and>
     (\<forall>n. DAList.lookup u' n =
        (case declared_units fs n of None \<Rightarrow> DAList.lookup u n | Some x \<Rightarrow> Some x))"
proof (induction fs arbitrary: m u r)
  case Nil
  then show ?case by (simp add: declared_units_def)
next
  case (Cons f fs)
  obtain m1 u1 r1 where step: "classify_field f (m, u, r) = (m1, u1, r1)"
    by (metis prod_cases3)
  then have rest: "fold classify_field fs (m1, u1, r1) = (m', u', r')"
    using Cons.prems by simp
  note IH = Cons.IH [OF rest]
  have m1: "m1 = (if field_mandatory f = ''mandatory'' then m @ [field_name f] else m)"
    and r1: "r1 = (if field_mandatory f = ''recommended'' then r @ [field_name f] else r)"
    and u1: "u1 = (case field_units f of Some x \<Rightarrow> DAList.update (field_name f) x u | None \<Rightarrow> u)"
    using step by (auto simp: classify_field_def)
  have "\<And>n. (case declared_units fs n of None \<Rightarrow> DAList.lookup u1 n | Some x \<Rightarrow> Some x) =
        (case declared_units (f # fs) n of None \<Rightarrow> DAList.lookup u n | Some x \<Rightarrow> Some x)"
    unfolding u1
    by (auto simp: declared_units_Cons DAList.lookup_update split: option.splits)
  then show ?case using IH m1 r1 by auto
qed

text \<open>
  C8. For every checklist definition the resolver returns as mandatory the names of the
  fields whose marker is \<open>mandatory\<close> and as recommended those whose marker is
  \<open>recommended\<close>, in document order; a field with another marker is in neither list.
  A name is a key of the units mapping exactly when a field of that name has a units
  declaration, and it maps to the declared unit.
\<close>

theorem field_classification:
  assumes "ena_checklist_xml env acc = Some root"
  shows "\<exists>m u r.
     mandatory_fields_and_units env acc =
       ([FetchChecklist acc], Inr (descriptor_name root, m, u, r)) \<and>
     m = map field_name (filter (\<lambda>f. field_mandatory f = ''mandatory'') (doc_fields root)) \<and>
     r = map field_name (filter (\<lambda>f. field_mandatory f = ''recommended'') (doc_fields root)) \<and>
     (\<forall>n. n \<in> set (keys u) \<longleftrightarrow>
            (\<exists>f \<in> set (doc_fields root). field_name f = n \<and> field_units f \<noteq> None)) \<and>
     (\<forall>n. DAList.lookup u n = declared_units (doc_fields root) n)"
proof -
  obtain m u r where c: "classify_fields (doc_fields root) = (m, u, r)"
    by (metis prod_cases3)
  then have f: "fold classify_field (doc_fields root) ([], DAList.empty, []) = (m, u, r)"
    by (simp add: classify_fields_def)
  note facts = fold_classify_field [OF f]
  have lk: "\<forall>n. DAList.lookup u n = declared_units (doc_fields root) n"
    using facts by (auto split: option.splits)
  have ks: "\<forall>n. n \<in> set (keys u) \<longleftrightarrow>
            (\<exists>f \<in> set (doc_fields root). field_name f = n \<and> field_units f \<noteq> None)"
  proof
    fix n
    have "declared_units (doc_fields root) n \<noteq> None \<longleftrightarrow>
          filter (\<lambda>f. field_name f = n \<and> field_units f \<noteq> None) (doc_fields root) \<noteq> []"
      by (simp add: declared_units_None_iff)
    then show "n \<in> set (keys u) \<longleftrightarrow>
            (\<exists>f \<in> set (doc_fields root). field_name f = n \<and> field_units f \<noteq> None)"
      using lk by (auto simp: in_keys_iff filter_empty_conv)
  qed
  have "mandatory_fields_and_units env acc =
       ([FetchChecklist acc], Inr (descriptor_name root, m, u, r))"
    using assms c by (simp add: mandatory_fields_and_units_def bind_run_def emit_def ok_def)
  then show ?thesis using facts lk ks by auto
qed

theorem field_classification_witness:
  "\<exists>u. mandatory_fields_and_units example_env ''ERC000011'' =
     ([FetchChecklist ''ERC000011''],
      Inr (''ENA default sample checklist'', [''collection date''], u, [''depth''])) \<and>
     keys u = [''depth''] \<and> DAList.lookup u ''depth'' = Some (Some ''m'') \<and>
     DAList.lookup u ''collection date'' = None"
proof -
  have e: "ena_checklist_xml example_env ''ERC000011'' = Some example_checklist"
    by (simp add: example_env_def)
  from field_classification [OF e] obtain m u r where
    run: "mandatory_fields_and_units example_env ''ERC000011'' =
       ([FetchChecklist ''ERC000011''], Inr (descriptor_name example_checklist, m, u, r))"
    and m: "m = map field_name (filter (\<lambda>f. field_mandatory f = ''mandatory'') (doc_fields example_checklist))"
    and r: "r = map field_name (filter (\<lambda>f. field_mandatory f = ''recommended'') (doc_fields example_checklist))"
    and lk: "\<forall>n. DAList.lookup u n = declared_units (doc_fields example_checklist) n"
    by blast
  have u: "u = DAList.update ''depth'' (Some ''m'') DAList.empty"
    using run e
    by (simp add: mandatory_fields_and_units_def bind_run_def emit_def ok_def example_checklist_def
        classify_fields_def classify_field_def)
  have k: "keys u = [''depth'']"
    unfolding u by (simp add: keys_def DAList.update.rep_eq DAList.empty.rep_eq)
  show ?thesis
    using run m r lk k
    by (simp add: example_checklist_def declared_units_def)
qed

section \<open>Properties of the reconciliation\<close>

lemma alist_update_fresh:
  "k \<notin> fst ` set al \<Longrightarrow> AList.update k v al = al @ [(k, v)]"
  by (induction al) auto

lemma items_update_fresh:
  "k \<notin> set (keys d) \<Longrightarrow> items (DAList.update k v d) = items d @ [(k, v)]"
  by (simp add: keys_def DAList.update.rep_eq alist_update_fresh)

lemma items_fold_update:
  assumes "distinct (map fst xs)" and "set (map fst xs) \<inter> set (keys acc) = {}"
  shows "items (fold (\<lambda>(t, v) c. if P t v then DAList.update t v c else c) xs acc) =
         items acc @ filter (\<lambda>(t, v). P t v) xs"
  using assms
proof (induction xs arbitrary: acc)
  case Nil
  then show ?case by simp
next
  case (Cons x xs)
  obtain t v where x: "x = (t, v)" by (cases x)
  let ?acc = "if P t v then DAList.update t v acc else acc"
  have fresh: "t \<notin> set (keys acc)" using Cons.prems(2) x by auto
  have d: "distinct (map fst xs)" using Cons.prems(1) by simp
  have tx: "t \<notin> set (map fst xs)" using Cons.prems(1) x by simp
  have rest: "set (map fst xs) \<inter> set (keys acc) = {}" using Cons.prems(2) by auto
  have disj: "set (map fst xs) \<inter> set (keys ?acc) = {}"
  proof (cases "P t v")
    case True
    then have "set (keys ?acc) = insert t (set (keys acc))" by (simp add: keys_update)
    then show ?thesis using tx rest by auto
  next
    case False
    then show ?thesis using rest by simp
  qed
  have "items (fold (\<lambda>(t, v) c. if P t v then DAList.update t v c else c) xs ?acc) =
        items ?acc @ filter (\<lambda>(t, v). P t v) xs"
    by (rule Cons.IH [OF d disj])
  moreover have "items ?acc = items acc @ (if P t v then [(t, v)] else [])"
    using fresh by (simp add: items_update_fresh)
  ultimately show ?case using x by simp
qed

lemma map_of_filter_distinct:
  "distinct (map fst xs) \<Longrightarrow>
   map_of (filter (\<lambda>(t, v). P t v) xs) k =
     (case map_of xs k of None \<Rightarrow> None | Some v \<Rightarrow> if P k v then Some v else None)"
proof (induction xs)
  case Nil
  then show ?case by simp
next
  case (Cons x xs)
  obtain t v where x: "x = (t, v)" by (cases x)
  have notin: "t \<notin> fst ` set xs" using Cons.prems x by simp
  then have none: "map_of xs t = None" by (simp add: map_of_eq_None_iff)
  have none': "map_of (filter (\<lambda>(t, v). P t v) xs) t = None"
    using notin by (auto simp: map_of_eq_None_iff)
  show ?case using Cons x none none' by (auto split: option.splits)
qed

lemma items_find_common_attributes:
  "items (find_common_attributes (first_attributes # rest)) =
     filter (\<lambda>(t, v). \<forall>a \<in> set (first_attributes # rest). DAList.lookup a t = Some v)
       (items first_attributes)"
proof -
  have P: "\<And>t v. list_all (\<lambda>a. case DAList.lookup a t of None \<Rightarrow> False | Some w \<Rightarrow> v = w)
                    (first_attributes # rest) \<longleftrightarrow>
                 (\<forall>a \<in> set (first_attributes # rest). DAList.lookup a t = Some v)"
    by (auto simp: list_all_iff split: option.splits)
  have "items (find_common_attributes (first_attributes # rest)) =
        items (DAList.empty :: attribute_set) @
        filter (\<lambda>(t, v). list_all (\<lambda>a. case DAList.lookup a t of None \<Rightarrow> False | Some w \<Rightarrow> v = w)
                 (first_attributes # rest)) (items first_attributes)"
    unfolding find_common_attributes_def list.case
    by (rule items_fold_update) (simp_all add: keys_empty)
  then show ?thesis
    unfolding P by (simp add: DAList.empty.rep_eq)
qed

text \<open>
  C2. For a non-empty list of attribute sets, a tag has (value, units) \<open>p\<close> in the
  reconciled set if and only if it has \<open>p\<close> in every input set; so a tag that some set
  lacks, or that two sets give different values or units, is not in the result. The
  result lists the surviving tags in the first set's order.
\<close>

theorem reconciliation_intersective:
  assumes "all_attributes \<noteq> []"
  shows "(DAList.lookup (find_common_attributes all_attributes) t = Some p \<longleftrightarrow>
           (\<forall>attributes \<in> set all_attributes. DAList.lookup attributes t = Some p))
         \<and> items (find_common_attributes all_attributes) =
             filter (\<lambda>(t, v). \<forall>a \<in> set all_attributes. DAList.lookup a t = Some v)
               (items (hd all_attributes))"
proof -
  obtain first_attributes rest where all: "all_attributes = first_attributes # rest"
    using assms by (cases all_attributes) auto
  let ?P = "\<lambda>t v. \<forall>a \<in> set (first_attributes # rest). DAList.lookup a t = Some v"
  have it: "items (find_common_attributes all_attributes) =
            filter (\<lambda>(t, v). ?P t v) (items first_attributes)"
    unfolding all by (rule items_find_common_attributes)
  have "DAList.lookup (find_common_attributes all_attributes) t =
        map_of (filter (\<lambda>(t, v). ?P t v) (items first_attributes)) t"
    using it DAList.lookup.rep_eq [of "find_common_attributes all_attributes"] by simp
  also have "\<dots> = (case map_of (items first_attributes) t of
           None \<Rightarrow> None | Some v \<Rightarrow> if ?P t v then Some v else None)"
    by (rule map_of_filter_distinct) simp
  finally have "DAList.lookup (find_common_attributes all_attributes) t =
        (case DAList.lookup first_attributes t of
           None \<Rightarrow> None | Some v \<Rightarrow> if ?P t v then Some v else None)"
    using DAList.lookup.rep_eq [of first_attributes] by simp
  then have "DAList.lookup (find_common_attributes all_attributes) t = Some p \<longleftrightarrow> ?P t p"
    by (auto split: option.splits)
  then show ?thesis using it all by simp
qed

theorem reconciliation_intersective_witness:
  "DAList.lookup (find_common_attributes [attributes_1, attributes_2]) ''A'' = Some (''1'', None) \<and>
   DAList.lookup attributes_1 ''A'' = Some (''1'', None) \<and>
   DAList.lookup attributes_2 ''A'' = Some (''1'', None) \<and>
   DAList.lookup attributes_1 ''B'' = Some (''x'', None) \<and>
   DAList.lookup attributes_2 ''B'' = Some (''y'', None) \<and>
   DAList.lookup (find_common_attributes [attributes_1, attributes_2]) ''B'' \<noteq> Some (''x'', None) \<and>
   DAList.lookup (find_common_attributes [attributes_1, attributes_2]) ''B'' \<noteq> Some (''y'', None) \<and>
   items (find_common_attributes [attributes_1, attributes_2]) = [(''A'', (''1'', None))]"
proof -
  have ne: "[attributes_1, attributes_2] \<noteq> []" by simp
  have i1: "items attributes_1 = [(''A'', (''1'', None)), (''B'', (''x'', None))]"
    by (simp add: attributes_1_def DAList.update.rep_eq DAList.empty.rep_eq)
  show ?thesis
    using reconciliation_intersective [OF ne, of "''A''" "(''1'', None)"]
          reconciliation_intersective [OF ne, of "''B''" "(''x'', None)"]
          reconciliation_intersective [OF ne, of "''B''" "(''y'', None)"]
    by (simp add: i1) (simp add: attributes_1_def attributes_2_def)
qed

section \<open>Properties of the composer\<close>

lemma fold_append_if:
  "fold (\<lambda>x acc. if P x then acc @ [g x] else acc) xs acc = acc @ map g (filter P xs)"
  by (induction xs arbitrary: acc) auto

lemma add_common_attributes_eq:
  "add_common_attributes common elems =
     elems @ map (\<lambda>(t, (v, units)). sample_attribute t v units)
               (filter (\<lambda>(t, p). t \<noteq> checklist_tag) (items common))"
proof -
  have "(\<lambda>(t, (v, units)) acc. if t = checklist_tag then acc else acc @ [sample_attribute t v units]) =
        (\<lambda>x acc. if (case x of (t, p) \<Rightarrow> t \<noteq> checklist_tag)
                  then acc @ [(case x of (t, (v, units)) \<Rightarrow> sample_attribute t v units)] else acc)"
    by (auto simp: fun_eq_iff)
  then show ?thesis
    unfolding add_common_attributes_def by (simp only: fold_append_if)
qed

lemma add_mandatory_fields_eq:
  "add_mandatory_fields common mandatory_fields elems =
     elems @ map (\<lambda>f. sample_attribute f missing_value None)
               (filter (\<lambda>f. f \<notin> set (keys common)) mandatory_fields)"
  unfolding add_mandatory_fields_def by (rule fold_append_if)

lemma read_sample_attribute:
  "read_attribute (sample_attribute t v units) = (Some t, Some v, emitted_units units)"
  by (simp add: read_attribute_def sample_attribute_def child_text_def find_child_def
      text_element_def emitted_units_def)

lemma emitted_attributes_create:
  "emitted_attributes
     (create_virtual_sample common sample_codes tx nm alias center checklist mandatory_fields) =
   (if checklist \<noteq> [] then [(Some checklist_tag, Some checklist, None)] else []) @
   map (\<lambda>(t, (v, units)). (Some t, Some v, emitted_units units))
     (filter (\<lambda>(t, p). t \<noteq> checklist_tag) (items common)) @
   map (\<lambda>f. (Some f, Some missing_value, None))
     (filter (\<lambda>f. f \<notin> set (keys common)) mandatory_fields)"
proof -
  have u: "emitted_units None = None" by (simp add: emitted_units_def truthy_def)
  have m: "map read_attribute
             (map (\<lambda>(t, (v, units)). sample_attribute t v units)
               (filter (\<lambda>(t, p). t \<noteq> checklist_tag) (items common))) =
           map (\<lambda>(t, (v, units)). (Some t, Some v, emitted_units units))
             (filter (\<lambda>(t, p). t \<noteq> checklist_tag) (items common))"
    by (auto simp: read_sample_attribute)
  show ?thesis
    by (simp add: emitted_attributes_def create_virtual_sample_def find_child_def text_element_def
        add_mandatory_fields_eq add_common_attributes_eq read_sample_attribute u m comp_def)
qed

lemma filter_key_distinct:
  "distinct (map fst xs) \<Longrightarrow> map_of xs k = Some p \<Longrightarrow> filter (\<lambda>x. fst x = k) xs = [(k, p)]"
proof (induction xs)
  case Nil
  then show ?case by simp
next
  case (Cons x xs)
  show ?case
  proof (cases "fst x = k")
    case True
    then have "k \<notin> fst ` set xs" using Cons.prems(1) by auto
    then have "filter (\<lambda>x. fst x = k) xs = []" by (auto simp: filter_empty_conv)
    moreover have "x = (k, p)" using True Cons.prems(2) by (cases x) auto
    ultimately show ?thesis by simp
  next
    case False
    then show ?thesis using Cons by (cases x) auto
  qed
qed

lemma filter_tag_map:
  "filter (\<lambda>a. fst a = Some f)
     (map (\<lambda>(t, (v, units)). (Some t, Some v, g units)) (filter Q xs)) =
   map (\<lambda>(t, (v, units)). (Some t, Some v, g units)) (filter Q (filter (\<lambda>x. fst x = f) xs))"
  by (induction xs) auto

lemma items_with_key:
  "DAList.lookup d k = Some p \<Longrightarrow> filter (\<lambda>x. fst x = k) (items d) = [(k, p)]"
  by (rule filter_key_distinct) (simp_all add: DAList.lookup.rep_eq)

text \<open>
  C7. With a non-empty checklist the first attribute of the composed record is
  \<open>ENA-CHECKLIST\<close> with the checklist as its value; then come the reconciled attributes
  without the reserved tag, in the reconciled set's order, each with its value and with
  its units when it has any; the placeholders follow.
\<close>

theorem checklist_attribute_first:
  assumes "checklist \<noteq> []"
  shows "emitted_attributes
           (create_virtual_sample common sample_codes tx nm alias center checklist mandatory_fields) =
         (Some ''ENA-CHECKLIST'', Some checklist, None) #
         map (\<lambda>(t, (v, units)). (Some t, Some v, emitted_units units))
           (filter (\<lambda>(t, p). t \<noteq> ''ENA-CHECKLIST'') (items common)) @
         map (\<lambda>f. (Some f, Some missing_value, None))
           (filter (\<lambda>f. f \<notin> set (keys common)) mandatory_fields)"
  using assms by (simp add: emitted_attributes_create checklist_tag_def)

lemma items_example_common:
  "items example_common =
     [(''ENA-CHECKLIST'', (''ERC000053'', None)), (''depth'', (''10'', Some ''m'')),
      (''sex'', (''female'', None))]"
  by (simp add: example_common_def DAList.update.rep_eq DAList.empty.rep_eq)

theorem checklist_attribute_first_witness:
  "emitted_attributes example_record =
     [(Some ''ENA-CHECKLIST'', Some ''ERC000011'', None),
      (Some ''depth'', Some ''10'', Some ''m''),
      (Some ''sex'', Some ''female'', None),
      (Some ''collection date'', Some ''missing: synthetic construct'', None)]"
proof -
  have c: "''ERC000011'' \<noteq> []" by simp
  show ?thesis
    unfolding example_record_def
    using checklist_attribute_first [OF c, of example_common "[''ERS1'', ''ERS2'']" "Some ''9606''"
        "Some ''Homo sapiens''" "''virtual_sample_ERS1_ERS2''" None "[''collection date'', ''depth'']"]
    by (simp add: items_example_common keys_def emitted_units_def truthy_def missing_value_def)
qed

text \<open>
  C4. Every mandatory field name that is no tag of the reconciled attributes is in the
  composed record with the value \<open>missing: synthetic construct\<close>. A reconciled tag other
  than the reserved checklist tag is in the record once, with its reconciled value and
  units, so a placeholder never replaces it; and the placeholders are appended to what
  the record holds without any mandatory field, for the missing names only.
\<close>

theorem mandatory_field_completion:
  "(\<forall>f \<in> set mandatory_fields.
      f \<notin> set (keys common) \<longrightarrow>
      (Some f, Some ''missing: synthetic construct'', None) \<in>
        set (emitted_attributes
               (create_virtual_sample common sample_codes tx nm alias center checklist
                  mandatory_fields)))
   \<and> (\<forall>f v units.
        DAList.lookup common f = Some (v, units) \<and> f \<noteq> ''ENA-CHECKLIST'' \<longrightarrow>
        filter (\<lambda>a. fst a = Some f)
          (emitted_attributes
             (create_virtual_sample common sample_codes tx nm alias center checklist
                mandatory_fields)) =
        [(Some f, Some v, emitted_units units)])
   \<and> emitted_attributes
        (create_virtual_sample common sample_codes tx nm alias center checklist mandatory_fields) =
      emitted_attributes
        (create_virtual_sample common sample_codes tx nm alias center checklist []) @
      map (\<lambda>f. (Some f, Some ''missing: synthetic construct'', None))
        (filter (\<lambda>f. f \<notin> set (keys common)) mandatory_fields)"
proof (intro conjI ballI allI impI)
  fix f
  assume "f \<in> set mandatory_fields" and "f \<notin> set (keys common)"
  then show "(Some f, Some ''missing: synthetic construct'', None) \<in>
        set (emitted_attributes
               (create_virtual_sample common sample_codes tx nm alias center checklist
                  mandatory_fields))"
    by (simp add: emitted_attributes_create missing_value_def)
next
  fix f v units
  assume a: "DAList.lookup common f = Some (v, units) \<and> f \<noteq> ''ENA-CHECKLIST''"
  then have key: "f \<in> set (keys common)" by (simp add: in_keys_iff)
  have one: "filter (\<lambda>x. fst x = f) (items common) = [(f, (v, units))]"
    using a by (simp add: items_with_key)
  have p1: "filter (\<lambda>a. fst a = Some f)
              (if checklist \<noteq> [] then [(Some checklist_tag, Some checklist, None)] else []) = []"
    using a by (auto simp: checklist_tag_def)
  have "filter (\<lambda>a. fst a = Some f)
          (map (\<lambda>(t, (v, units)). (Some t, Some v, emitted_units units))
             (filter (\<lambda>(t, p). t \<noteq> checklist_tag) (items common))) =
        map (\<lambda>(t, (v, units)). (Some t, Some v, emitted_units units))
          (filter (\<lambda>(t, p). t \<noteq> checklist_tag) (filter (\<lambda>x. fst x = f) (items common)))"
    by (rule filter_tag_map)
  then have p2: "filter (\<lambda>a. fst a = Some f)
          (map (\<lambda>(t, (v, units)). (Some t, Some v, emitted_units units))
             (filter (\<lambda>(t, p). t \<noteq> checklist_tag) (items common))) =
        [(Some f, Some v, emitted_units units)]"
    using one a by (simp add: checklist_tag_def)
  have p3: "filter (\<lambda>a. fst a = Some f)
          (map (\<lambda>f. (Some f, Some missing_value, None))
             (filter (\<lambda>f. f \<notin> set (keys common)) mandatory_fields)) = []"
    using key by (auto simp: filter_empty_conv)
  show "filter (\<lambda>a. fst a = Some f)
          (emitted_attributes
             (create_virtual_sample common sample_codes tx nm alias center checklist
                mandatory_fields)) =
        [(Some f, Some v, emitted_units units)]"
    unfolding emitted_attributes_create filter_append p1 p2 p3 by simp
next
  show "emitted_attributes
        (create_virtual_sample common sample_codes tx nm alias center checklist mandatory_fields) =
      emitted_attributes
        (create_virtual_sample common sample_codes tx nm alias center checklist []) @
      map (\<lambda>f. (Some f, Some ''missing: synthetic construct'', None))
        (filter (\<lambda>f. f \<notin> set (keys common)) mandatory_fields)"
    by (simp add: emitted_attributes_create missing_value_def)
qed

theorem mandatory_field_completion_witness:
  "''collection date'' \<in> set [''collection date'', ''depth''] \<and>
   ''collection date'' \<notin> set (keys example_common) \<and>
   (Some ''collection date'', Some ''missing: synthetic construct'', None) \<in>
     set (emitted_attributes example_record) \<and>
   ''depth'' \<in> set [''collection date'', ''depth''] \<and>
   DAList.lookup example_common ''depth'' = Some (''10'', Some ''m'') \<and>
   filter (\<lambda>a. fst a = Some ''depth'') (emitted_attributes example_record) =
     [(Some ''depth'', Some ''10'', Some ''m'')]"
proof -
  have k: "keys example_common = [''ENA-CHECKLIST'', ''depth'', ''sex'']"
    by (simp add: keys_def items_example_common)
  have l: "DAList.lookup example_common ''depth'' = Some (''10'', Some ''m'')"
    by (simp add: DAList.lookup.rep_eq items_example_common)
  have u: "emitted_units (Some ''m'') = Some ''m''"
    by (simp add: emitted_units_def truthy_def)
  note T = mandatory_field_completion [of "[''collection date'', ''depth'']" example_common
        "[''ERS1'', ''ERS2'']" "Some ''9606''" "Some ''Homo sapiens''" "''virtual_sample_ERS1_ERS2''"
        None "''ERC000011''", folded example_record_def]
  from T have A: "\<forall>f \<in> set [''collection date'', ''depth''].
      f \<notin> set (keys example_common) \<longrightarrow>
      (Some f, Some ''missing: synthetic construct'', None) \<in> set (emitted_attributes example_record)"
    by (rule conjunct1)
  from T have B: "\<forall>f v units.
        DAList.lookup example_common f = Some (v, units) \<and> f \<noteq> ''ENA-CHECKLIST'' \<longrightarrow>
        filter (\<lambda>a. fst a = Some f) (emitted_attributes example_record) =
        [(Some f, Some v, emitted_units units)]"
    by blast
  have a: "(Some ''collection date'', Some ''missing: synthetic construct'', None) \<in>
     set (emitted_attributes example_record)"
    using A k by simp
  have b: "filter (\<lambda>a. fst a = Some ''depth'') (emitted_attributes example_record) =
     [(Some ''depth'', Some ''10'', Some ''m'')]"
    using B [rule_format, of "''depth''" "''10''" "Some ''m''"] l u by simp
  show ?thesis using a b k l by simp
qed

lemma split_codes_no_comma:
  "CHR '','' \<notin> set x \<Longrightarrow> split_codes acc (x @ rest) = split_codes (acc @ x) rest"
proof (induction x arbitrary: acc)
  case Nil
  then show ?case by simp
next
  case (Cons c x)
  then have c: "c \<noteq> CHR '',''" and x: "CHR '','' \<notin> set x" by auto
  show ?case
  proof (cases "x @ rest")
    case Nil
    then show ?thesis by simp
  next
    case (Cons d cs)
    have "split_codes acc ((c # x) @ rest) = split_codes (acc @ [c]) (x @ rest)"
      using c Cons by simp
    also have "\<dots> = split_codes ((acc @ [c]) @ x) rest"
      by (rule Cons.IH [OF x])
    finally show ?thesis by simp
  qed
qed

lemma split_codes_join:
  "\<forall>c \<in> set (x # xs). CHR '','' \<notin> set c \<Longrightarrow>
   split_codes acc (join '', '' (x # xs)) = (acc @ x) # xs"
proof (induction xs arbitrary: x acc)
  case Nil
  then have "split_codes acc (x @ []) = split_codes (acc @ x) []"
    by (intro split_codes_no_comma) simp
  then show ?case by simp
next
  case (Cons y ys)
  then have x: "CHR '','' \<notin> set x" and rest: "\<forall>c \<in> set (y # ys). CHR '','' \<notin> set c"
    by auto
  have "split_codes acc (join '', '' (x # y # ys)) =
        split_codes acc (x @ ('', '' @ join '', '' (y # ys)))"
    by simp
  also have "\<dots> = split_codes (acc @ x) ('', '' @ join '', '' (y # ys))"
    by (rule split_codes_no_comma [OF x])
  also have "\<dots> = (acc @ x) # split_codes [] (join '', '' (y # ys))"
    by simp
  also have "\<dots> = (acc @ x) # y # ys"
    using Cons.IH [OF rest, of "[]"] by simp
  finally show ?case .
qed

lemma join_nonempty: "x \<noteq> [] \<Longrightarrow> join sep (x # xs) \<noteq> []"
  by (cases xs) auto

lemma title_sample_codes_title_text:
  assumes "\<forall>c \<in> set sample_codes. c \<noteq> [] \<and> CHR '','' \<notin> set c"
  shows "title_sample_codes (title_text sample_codes) = sample_codes"
proof (cases sample_codes)
  case Nil
  then show ?thesis by (simp add: title_sample_codes_def title_text_def)
next
  case (Cons x xs)
  have body: "butlast (drop (length title_prefix) (title_text sample_codes)) =
              join '', '' sample_codes"
    by (simp add: title_text_def butlast_append)
  have ne: "join '', '' sample_codes \<noteq> []"
    using assms Cons by (simp add: join_nonempty)
  have "split_codes [] (join '', '' (x # xs)) = ([] @ x) # xs"
    using assms Cons by (intro split_codes_join) auto
  then show ?thesis
    using body ne Cons by (simp add: title_sample_codes_def)
qed

text \<open>
  C6. The description of the composed record is the fixed sentence followed by the
  source sample identifiers in input order, separated by a comma and a space, and a
  full stop: it names those identifiers and no other. For identifiers that are not
  empty and hold no comma, as archive accessions are, reading the description back
  gives exactly the input list.
\<close>

theorem description_enumerates_sources:
  "child_text
     (create_virtual_sample common sample_codes tx nm alias center checklist mandatory_fields)
     ''TITLE'' =
     Some (title_prefix @ join '', '' sample_codes @ ''.'')
   \<and> ((\<forall>c \<in> set sample_codes. c \<noteq> [] \<and> CHR '','' \<notin> set c) \<longrightarrow>
        title_sample_codes (title_prefix @ join '', '' sample_codes @ ''.'') = sample_codes)"
proof (rule conjI)
  show "child_text
     (create_virtual_sample common sample_codes tx nm alias center checklist mandatory_fields)
     ''TITLE'' =
     Some (title_prefix @ join '', '' sample_codes @ ''.'')"
    by (simp add: child_text_def find_child_def create_virtual_sample_def text_element_def
        title_text_def)
next
  show "(\<forall>c \<in> set sample_codes. c \<noteq> [] \<and> CHR '','' \<notin> set c) \<longrightarrow>
        title_sample_codes (title_prefix @ join '', '' sample_codes @ ''.'') = sample_codes"
    using title_sample_codes_title_text [of sample_codes] by (simp add: title_text_def)
qed

theorem description_enumerates_sources_witness:
  "child_text example_record ''TITLE'' =
     Some (''This sample is a virtual sample of assembled raw reads from multiple physical '' @
           ''samples of genome and is composed of physical samples ERS1, ERS2.'') \<and>
   title_sample_codes
     (''This sample is a virtual sample of assembled raw reads from multiple physical '' @
      ''samples of genome and is composed of physical samples ERS1, ERS2.'') = [''ERS1'', ''ERS2'']"
  unfolding example_record_def
  using description_enumerates_sources [of example_common "[''ERS1'', ''ERS2'']" "Some ''9606''"
      "Some ''Homo sapiens''" "''virtual_sample_ERS1_ERS2''" None "''ERC000011''"
      "[''collection date'', ''depth'']"]
  by (simp add: title_prefix_def)

section \<open>Properties of the release phase\<close>

lemma is_accession_nonempty: "is_accession a \<Longrightarrow> a \<noteq> []"
  by (auto simp: is_accession_def)

lemma release_targets_create_release_xml:
  "release_targets (create_release_xml sample_code) = [sample_code]"
  by (simp add: release_targets_def create_release_xml_def)

lemma submit_to_ebi_shape:
  "\<exists>evs r. submit_to_ebi env submission samples submit =
     (Curl submission (if samples \<noteq> [] then Some samples else None) submit # evs, Inr r)"
  by (auto simp: submit_to_ebi_def bind_run_def emit_def ok_def Let_def split: option.splits)

text \<open>
  C9. In a release run on a directory with a saved receipt: when extraction finds no
  accession in the receipt the run ends with \<open>ValueError\<close> and has done nothing to the
  outside, so no release request is uploaded; when it finds accession \<open>a\<close> the run
  writes the release document made for \<open>a\<close>, whose only release target is \<open>a\<close>, and
  uploads it.
\<close>

theorem release_requires_accession:
  assumes "credentials_file env = Some cred"
    and "output_dir_exists env"
    and "submission_response_file env = Some receipt"
  shows "(extract_sample_code_from_response receipt = None \<longrightarrow>
            main env sample_codes submit True checklist alias center force =
              ([], Inl (ValueError ''No sample code found in submission response.'')))
         \<and> (extract_sample_code_from_response receipt = Some a \<longrightarrow>
              (\<exists>evs. main env sample_codes submit True checklist alias center force =
                      (WriteXml ''release.xml'' (create_release_xml a) #
                       Curl ''release.xml'' (Some ''virtual_sample.xml'') submit # evs, Inr ())) \<and>
              release_targets (create_release_xml a) = [a])"
proof (intro conjI impI)
  assume "extract_sample_code_from_response receipt = None"
  then show "main env sample_codes submit True checklist alias center force =
              ([], Inl (ValueError ''No sample code found in submission response.''))"
    using assms
    by (cases cred)
       (simp add: main_def read_credentials_def main_release_def bind_run_def ok_def raise_def)
next
  assume a: "extract_sample_code_from_response receipt = Some a"
  then have ne: "a \<noteq> []" using extract_sound is_accession_nonempty by blast
  obtain evs r where s: "submit_to_ebi env ''release.xml'' ''virtual_sample.xml'' submit =
      (Curl ''release.xml'' (Some ''virtual_sample.xml'') submit # evs, Inr r)"
    using submit_to_ebi_shape [of env "''release.xml''" "''virtual_sample.xml''" submit] by auto
  have "main env sample_codes submit True checklist alias center force =
          (WriteXml ''release.xml'' (create_release_xml a) #
           Curl ''release.xml'' (Some ''virtual_sample.xml'') submit # evs, Inr ())"
    using assms a ne s
    by (cases cred)
       (simp add: main_def read_credentials_def main_release_def bind_run_def ok_def raise_def
          emit_def)
  then show "\<exists>evs. main env sample_codes submit True checklist alias center force =
                      (WriteXml ''release.xml'' (create_release_xml a) #
                       Curl ''release.xml'' (Some ''virtual_sample.xml'') submit # evs, Inr ())"
    by blast
next
  show "release_targets (create_release_xml a) = [a]"
    by (rule release_targets_create_release_xml)
qed

lemma extract_receipt_text: "extract_sample_code_from_response receipt_text = Some ''ERS777''"
  by (simp add: extract_eq receipt_text_def success_literal_def error_literal_def dquote_def
      match_at_def digit_width_def utf8_head_Cons utf8_head_Nil lead_width_def decode_sequence_def
      payload_def is_decimal_def unicode_decimal_zeros_def continuation_def)

lemma extract_no_accession: "extract_sample_code_from_response ''<RECEIPT/>'' = None"
  by (simp add: extract_eq success_literal_def error_literal_def dquote_def
      match_at_def digit_width_def utf8_head_Cons utf8_head_Nil lead_width_def decode_sequence_def
      payload_def is_decimal_def unicode_decimal_zeros_def continuation_def)

theorem release_requires_accession_witness:
  "main (release_env ''<RECEIPT/>'') [] True True None None None False =
     ([], Inl (ValueError ''No sample code found in submission response.'')) \<and>
   main (release_env receipt_text) [] True True None None None False =
     ([WriteXml ''release.xml'' (create_release_xml ''ERS777''),
       Curl ''release.xml'' (Some ''virtual_sample.xml'') True,
       WriteText ''submission_response.xml'' ''<RECEIPT/>''], Inr ()) \<and>
   release_targets (create_release_xml ''ERS777'') = [''ERS777'']"
proof -
  have c: "\<And>r. credentials_file (release_env r) = Some (''Webin-1'', ''secret'')"
    and d: "\<And>r. output_dir_exists (release_env r)"
    and f: "\<And>r. submission_response_file (release_env r) = Some r"
    by (simp_all add: release_env_def)
  note T1 = release_requires_accession [OF c d f, of "''<RECEIPT/>''" "[]" True None None None False
      "''ERS777''"]
  note T2 = release_requires_accession [OF c d f, of receipt_text "[]" True None None None False
      "''ERS777''"]
  have 1: "main (release_env ''<RECEIPT/>'') [] True True None None None False =
     ([], Inl (ValueError ''No sample code found in submission response.''))"
    using T1 extract_no_accession by simp
  from T2 extract_receipt_text obtain evs where
    2: "main (release_env receipt_text) [] True True None None None False =
          (WriteXml ''release.xml'' (create_release_xml ''ERS777'') #
           Curl ''release.xml'' (Some ''virtual_sample.xml'') True # evs, Inr ())"
    and 3: "release_targets (create_release_xml ''ERS777'') = [''ERS777'']"
    by auto
  have "main (release_env receipt_text) [] True True None None None False =
     ([WriteXml ''release.xml'' (create_release_xml ''ERS777''),
       Curl ''release.xml'' (Some ''virtual_sample.xml'') True,
       WriteText ''submission_response.xml'' ''<RECEIPT/>''], Inr ())"
    using extract_receipt_text
    by (simp add: main_def read_credentials_def main_release_def bind_run_def ok_def raise_def
        emit_def submit_to_ebi_def release_env_def)
  then show ?thesis using 1 3 by simp
qed

section \<open>Properties of the submission run\<close>

lemma process_sample_ok:
  assumes "ena_sample_xml env c = Inr (Some s)"
    and "st_common_taxon_id st = None \<or> st_common_taxon_id st = taxon_id s"
    and "st_common_scientific_name st = None \<or> st_common_scientific_name st = scientific_name s"
  shows "process_sample env st c =
           ([Download c],
            Inr \<lparr>st_all_attributes = st_all_attributes st @ [parse_sample_attributes s],
                 st_sample_aliases = st_sample_aliases st @ [sample_alias s],
                 st_common_taxon_id = taxon_id s,
                 st_common_scientific_name = scientific_name s,
                 st_checklist_set =
                   collect_checklist (parse_sample_attributes s) (st_checklist_set st)\<rparr>)"
  using assms
  by (auto simp: process_sample_def download_sample_xml_def check_common_def bind_run_def
      emit_def ok_def raise_def Let_def split: option.splits)

lemma process_sample_mismatch:
  assumes "ena_sample_xml env c = Inr (Some s)"
    and "taxon_id s0 = Some t0" and "scientific_name s0 = Some n0"
    and "st_common_taxon_id st = Some t0"
    and "st_common_scientific_name st = Some n0"
    and "\<not> agrees s0 s"
  shows "process_sample env st c = ([Download c], Inl (ValueError (mismatch_message s0 s c)))"
  using assms
  by (auto simp: process_sample_def download_sample_xml_def check_common_def bind_run_def
      emit_def ok_def raise_def agrees_def mismatch_message_def str_of_def)

lemma main_collect_mismatch:
  assumes "taxon_id s0 = Some t0" and "scientific_name s0 = Some n0"
    and "st_common_taxon_id st = Some t0"
    and "st_common_scientific_name st = Some n0"
    and "k < length cs"
    and "\<forall>i\<le>k. ena_sample_xml env (cs ! i) = Inr (Some (s i))"
    and "\<forall>j<k. agrees s0 (s j)"
    and "\<not> agrees s0 (s k)"
  shows "main_collect env cs st =
           (map Download (take (Suc k) cs),
            Inl (ValueError (mismatch_message s0 (s k) (cs ! k))))"
  using assms(3-)
proof (induction cs arbitrary: k st s)
  case Nil
  then show ?case by simp
next
  case (Cons c cs)
  have c: "ena_sample_xml env c = Inr (Some (s 0))" using Cons.prems(4) by force
  show ?case
  proof (cases k)
    case 0
    then have "process_sample env st c = ([Download c], Inl (ValueError (mismatch_message s0 (s 0) c)))"
      using process_sample_mismatch [OF c assms(1,2) Cons.prems(1,2)] Cons.prems(6) by simp
    then show ?thesis using 0 by (simp add: bind_run_def)
  next
    case (Suc k')
    then have ag: "agrees s0 (s 0)" using Cons.prems(5) by simp
    then have t: "st_common_taxon_id st = taxon_id (s 0)"
      and n: "st_common_scientific_name st = scientific_name (s 0)"
      using Cons.prems(1,2) assms(1,2) by (simp_all add: agrees_def)
    obtain st' where step: "process_sample env st c = ([Download c], Inr st')"
      and t': "st_common_taxon_id st' = Some t0"
      and n': "st_common_scientific_name st' = Some n0"
      using process_sample_ok [OF c] t n Cons.prems(1,2) by simp
    have k': "k' < length cs" using Cons.prems(3) Suc by simp
    have f: "\<forall>i\<le>k'. ena_sample_xml env (cs ! i) = Inr (Some (s (Suc i)))"
      using Cons.prems(4) Suc by (metis Suc_le_mono nth_Cons_Suc)
    have a: "\<forall>j<k'. agrees s0 (s (Suc j))" using Cons.prems(5) Suc by simp
    have b: "\<not> agrees s0 (s (Suc k'))" using Cons.prems(6) Suc by simp
    have "main_collect env cs st' =
           (map Download (take (Suc k') cs),
            Inl (ValueError (mismatch_message s0 (s (Suc k')) (cs ! k'))))"
      by (rule Cons.IH [OF t' n' k' f a b])
    then show ?thesis using step Suc by (simp add: bind_run_def)
  qed
qed

lemma main_collect_agree:
  assumes "st_common_taxon_id st = None \<or> st_common_taxon_id st = taxon_id s0"
    and "st_common_scientific_name st = None \<or> st_common_scientific_name st = scientific_name s0"
    and "\<forall>i<length cs. ena_sample_xml env (cs ! i) = Inr (Some (s i)) \<and> agrees s0 (s i)"
    and "cs \<noteq> []"
  shows "\<exists>st'. main_collect env cs st = (map Download cs, Inr st') \<and>
               st_common_taxon_id st' = taxon_id s0 \<and>
               st_common_scientific_name st' = scientific_name s0"
  using assms
proof (induction cs arbitrary: st s)
  case Nil
  then show ?case by simp
next
  case (Cons c cs)
  have c: "ena_sample_xml env c = Inr (Some (s 0))" and ag: "agrees s0 (s 0)"
    using Cons.prems(3) by force+
  obtain st' where step: "process_sample env st c = ([Download c], Inr st')"
    and t': "st_common_taxon_id st' = taxon_id s0"
    and n': "st_common_scientific_name st' = scientific_name s0"
    using process_sample_ok [OF c] Cons.prems(1,2) ag by (auto simp: agrees_def)
  show ?case
  proof (cases cs)
    case Nil
    then show ?thesis using step t' n' by (simp add: bind_run_def ok_def)
  next
    case (Cons d ds)
    have f: "\<forall>i<length cs. ena_sample_xml env (cs ! i) = Inr (Some (s (Suc i))) \<and>
                agrees s0 (s (Suc i))"
      using Cons.prems(3) by auto
    have "\<exists>st''. main_collect env cs st' = (map Download cs, Inr st'') \<and>
               st_common_taxon_id st'' = taxon_id s0 \<and>
               st_common_scientific_name st'' = scientific_name s0"
      using Cons.IH [of st' "\<lambda>i. s (Suc i)"] t' n' f Cons by simp
    then show ?thesis using step by (auto simp: bind_run_def)
  qed
qed

lemma record_taxonomy_create:
  "record_taxon_id
     (create_virtual_sample common sample_codes tx nm alias center checklist mandatory_fields) = tx"
  "record_scientific_name
     (create_virtual_sample common sample_codes tx nm alias center checklist mandatory_fields) = nm"
  by (simp_all add: record_taxon_id_def record_scientific_name_def create_virtual_sample_def
      find_child_def child_text_def text_element_def)

lemma submit_to_ebi_cases:
  "(\<exists>out. submit_to_ebi env submission samples submit =
      ([Curl submission (if samples \<noteq> [] then Some samples else None) submit,
        WriteText ''submission_response.xml'' out], Inr (Some out))) \<or>
   submit_to_ebi env submission samples submit =
      ([Curl submission (if samples \<noteq> [] then Some samples else None) submit], Inr None)"
  by (auto simp: submit_to_ebi_def bind_run_def emit_def ok_def Let_def split: option.splits)

lemma mandatory_fields_and_units_cases:
  "mandatory_fields_and_units env a = ([FetchChecklist a], Inl (SystemExit 1)) \<or>
   (\<exists>x. mandatory_fields_and_units env a = ([FetchChecklist a], Inr x))"
proof (cases "ena_checklist_xml env a")
  case None
  then show ?thesis
    by (simp add: mandatory_fields_and_units_def bind_run_def emit_def ok_def raise_def)
next
  case (Some root)
  then have "mandatory_fields_and_units env a =
      ([FetchChecklist a], Inr (descriptor_name root, classify_fields (doc_fields root)))"
    by (simp add: mandatory_fields_and_units_def bind_run_def emit_def ok_def raise_def)
  then show ?thesis by blast
qed

lemma main_compose_written:
  assumes "WriteXml ''virtual_sample.xml'' doc \<in>
             set (fst (main_compose env sample_codes submit checklist alias center force st))"
  shows "\<exists>sample. doc = Element ''SAMPLE_SET'' [] None [sample] \<and>
           record_taxon_id sample = st_common_taxon_id st \<and>
           record_scientific_name sample = st_common_scientific_name st"
proof -
  obtain fc ws where ch: "choose_checklist checklist (st_checklist_set st) = (fc, ws)"
    by (cases "choose_checklist checklist (st_checklist_set st)")
  let ?submit = "if ws \<noteq> [] \<and> submit \<and> \<not> force then False else submit"
  note s = submit_to_ebi_cases [of env "''submission.xml''" "''virtual_sample.xml''" ?submit]
  note m = mandatory_fields_and_units_cases [of env fc]
  show ?thesis
    using assms ch s m
    by (auto simp: main_compose_def bind_run_def emit_def ok_def raise_def Let_def
        record_taxonomy_create split: if_splits)
qed

lemma main_compose_done:
  assumes "snd (main_compose env sample_codes submit checklist alias center force st) = Inr u"
  shows "\<exists>doc. WriteXml ''virtual_sample.xml'' doc \<in>
             set (fst (main_compose env sample_codes submit checklist alias center force st))"
proof -
  obtain fc ws where ch: "choose_checklist checklist (st_checklist_set st) = (fc, ws)"
    by (cases "choose_checklist checklist (st_checklist_set st)")
  let ?submit = "if ws \<noteq> [] \<and> submit \<and> \<not> force then False else submit"
  note s = submit_to_ebi_cases [of env "''submission.xml''" "''virtual_sample.xml''" ?submit]
  note m = mandatory_fields_and_units_cases [of env fc]
  show ?thesis
    using assms ch s m
    by (auto simp: main_compose_def bind_run_def emit_def ok_def raise_def Let_def
        split: if_splits)
qed

lemma main_submission:
  assumes "credentials_file env = Some cred" and "\<not> output_dir_exists env"
  shows "main env sample_codes submit False checklist alias center force =
           (case main_collect env sample_codes initial of
              (evs, Inl e) \<Rightarrow> (MakeDirs # evs, Inl e)
            | (evs, Inr st) \<Rightarrow>
                (case main_compose env sample_codes submit checklist alias center force st of
                   (evs', r) \<Rightarrow> (MakeDirs # evs @ evs', r)))"
  using assms
  by (cases cred)
     (auto simp: main_def read_credentials_def bind_run_def emit_def ok_def
        split: prod.splits sum.splits)

lemma agrees_refl: "agrees s s"
  by (simp add: agrees_def)

text \<open>
  What the taxonomy check does achieve. In a submission run whose first sample has text
  in \<open>TAXON_ID\<close> and in \<open>SCIENTIFIC_NAME\<close>: when sample \<open>k\<close> is the first that differs
  from the first sample in one of the two, the run ends with a \<open>ValueError\<close> that names
  that sample's code, and all it has done is to create the output directory and to fetch
  the samples up to that one. And for any first sample: when all samples agree with it,
  every virtual sample the run writes carries its taxon identifier and scientific
  name, and a run that ends without an exception has written one.
\<close>

lemma taxonomy_check_with_text:
  assumes "credentials_file env = Some cred" and "\<not> output_dir_exists env"
  shows "(taxon_id (s 0) \<noteq> None \<and> scientific_name (s 0) \<noteq> None \<and>
          k < length sample_codes \<and>
          (\<forall>i\<le>k. ena_sample_xml env (sample_codes ! i) = Inr (Some (s i))) \<and>
          (\<forall>j<k. agrees (s 0) (s j)) \<and> \<not> agrees (s 0) (s k) \<longrightarrow>
            main env sample_codes submit False checklist alias center force =
              (MakeDirs # map Download (take (Suc k) sample_codes),
               Inl (ValueError (mismatch_message (s 0) (s k) (sample_codes ! k)))))
         \<and> (sample_codes \<noteq> [] \<and>
            (\<forall>i<length sample_codes.
                ena_sample_xml env (sample_codes ! i) = Inr (Some (s i)) \<and> agrees (s 0) (s i)) \<longrightarrow>
              (\<forall>doc. WriteXml ''virtual_sample.xml'' doc \<in>
                        set (fst (main env sample_codes submit False checklist alias center force)) \<longrightarrow>
                 (\<exists>sample. doc = Element ''SAMPLE_SET'' [] None [sample] \<and>
                    record_taxon_id sample = taxon_id (s 0) \<and>
                    record_scientific_name sample = scientific_name (s 0))) \<and>
              (snd (main env sample_codes submit False checklist alias center force) = Inr () \<longrightarrow>
                 (\<exists>doc. WriteXml ''virtual_sample.xml'' doc \<in>
                    set (fst (main env sample_codes submit False checklist alias center force)))))"
proof (rule conjI; rule impI)
  assume h: "taxon_id (s 0) \<noteq> None \<and> scientific_name (s 0) \<noteq> None \<and>
          k < length sample_codes \<and>
          (\<forall>i\<le>k. ena_sample_xml env (sample_codes ! i) = Inr (Some (s i))) \<and>
          (\<forall>j<k. agrees (s 0) (s j)) \<and> \<not> agrees (s 0) (s k)"
  then obtain t0 n0 where t0: "taxon_id (s 0) = Some t0" and n0: "scientific_name (s 0) = Some n0"
    by auto
  have "k \<noteq> 0" using h agrees_refl by (cases k) auto
  then obtain k' where k: "k = Suc k'" by (cases k) auto
  obtain c cs where codes: "sample_codes = c # cs" using h by (cases sample_codes) auto
  have c: "ena_sample_xml env c = Inr (Some (s 0))" using h codes by force
  obtain st where step: "process_sample env initial c = ([Download c], Inr st)"
    and t: "st_common_taxon_id st = Some t0"
    and n: "st_common_scientific_name st = Some n0"
    using process_sample_ok [OF c, of initial] t0 n0 by (simp add: initial_def)
  have k': "k' < length cs" using h k codes by simp
  have f: "\<forall>i\<le>k'. ena_sample_xml env (cs ! i) = Inr (Some (s (Suc i)))"
    using h k codes by (metis Suc_le_mono nth_Cons_Suc)
  have a: "\<forall>j<k'. agrees (s 0) (s (Suc j))" using h k by simp
  have b: "\<not> agrees (s 0) (s (Suc k'))" using h k by simp
  have "main_collect env cs st =
           (map Download (take (Suc k') cs),
            Inl (ValueError (mismatch_message (s 0) (s (Suc k')) (cs ! k'))))"
    by (rule main_collect_mismatch [OF t0 n0 t n k' f a b])
  then have "main_collect env sample_codes initial =
           (map Download (take (Suc k) sample_codes),
            Inl (ValueError (mismatch_message (s 0) (s k) (sample_codes ! k))))"
    using step codes k by (simp add: bind_run_def)
  then show "main env sample_codes submit False checklist alias center force =
              (MakeDirs # map Download (take (Suc k) sample_codes),
               Inl (ValueError (mismatch_message (s 0) (s k) (sample_codes ! k))))"
    by (simp add: main_submission [OF assms])
next
  let ?main = "main env sample_codes submit False checklist alias center force"
  assume h: "sample_codes \<noteq> [] \<and>
            (\<forall>i<length sample_codes.
                ena_sample_xml env (sample_codes ! i) = Inr (Some (s i)) \<and> agrees (s 0) (s i))"
  then obtain st where col: "main_collect env sample_codes initial = (map Download sample_codes, Inr st)"
    and t: "st_common_taxon_id st = taxon_id (s 0)"
    and n: "st_common_scientific_name st = scientific_name (s 0)"
    using main_collect_agree [of initial "s 0" sample_codes env s] by (auto simp: initial_def)
  let ?compose = "main_compose env sample_codes submit checklist alias center force st"
  have m: "?main = (MakeDirs # map Download sample_codes @ fst ?compose, snd ?compose)"
    using col by (simp add: main_submission [OF assms] split: prod.splits)
  show "(\<forall>doc. WriteXml ''virtual_sample.xml'' doc \<in> set (fst ?main) \<longrightarrow>
                 (\<exists>sample. doc = Element ''SAMPLE_SET'' [] None [sample] \<and>
                    record_taxon_id sample = taxon_id (s 0) \<and>
                    record_scientific_name sample = scientific_name (s 0))) \<and>
        (snd ?main = Inr () \<longrightarrow> (\<exists>doc. WriteXml ''virtual_sample.xml'' doc \<in> set (fst ?main)))"
  proof (intro conjI allI impI)
    fix doc
    assume "WriteXml ''virtual_sample.xml'' doc \<in> set (fst ?main)"
    then have "WriteXml ''virtual_sample.xml'' doc \<in> set (fst ?compose)"
      unfolding m by auto
    then show "\<exists>sample. doc = Element ''SAMPLE_SET'' [] None [sample] \<and>
                    record_taxon_id sample = taxon_id (s 0) \<and>
                    record_scientific_name sample = scientific_name (s 0)"
      using main_compose_written t n by metis
  next
    assume "snd ?main = Inr ()"
    then have "snd ?compose = Inr ()" unfolding m by simp
    then obtain doc where "WriteXml ''virtual_sample.xml'' doc \<in> set (fst ?compose)"
      using main_compose_done by blast
    then show "\<exists>doc. WriteXml ''virtual_sample.xml'' doc \<in> set (fst ?main)"
      unfolding m by auto
  qed
qed

lemma submit_env_fields:
  "credentials_file submit_env = Some (''Webin-1'', ''secret'')"
  "\<not> output_dir_exists submit_env"
  "ena_sample_xml submit_env ''ERS1'' = Inr (Some sample_ERS1)"
  "ena_sample_xml submit_env ''ERS2'' = Inr (Some sample_ERS2)"
  "ena_sample_xml submit_env ''ERS3'' = Inr (Some sample_ERS3)"
  "ena_checklist_xml submit_env ''ERC000011'' = Some example_checklist"
  "curl_stdout submit_env = (\<lambda>s x p. Some receipt_text)"
  "ena_sample_xml submit_env ''ERS4'' = Inr (Some sample_ERS4)"
  by (simp_all add: submit_env_def)

lemma collect_checklist_examples:
  "collect_checklist (parse_sample_attributes sample_ERS1) cs = List.insert ''ERC000011'' cs"
  "collect_checklist (parse_sample_attributes sample_ERS2) cs = List.insert ''ERC000053'' cs"
  "collect_checklist (parse_sample_attributes sample_ERS4) cs = List.insert ''ERC000011'' cs"
  by (simp_all add: collect_checklist_def parse_sample_attributes_def sample_ERS1_def
      sample_ERS2_def sample_ERS4_def DAList.lookup_update checklist_tag_def truthy_def)

lemma main_collect_ERS1_ERS2:
  "main_collect submit_env [''ERS1'', ''ERS2''] initial =
     ([Download ''ERS1'', Download ''ERS2''],
      Inr \<lparr>st_all_attributes =
             [parse_sample_attributes sample_ERS1, parse_sample_attributes sample_ERS2],
           st_sample_aliases = [''first'', ''second''],
           st_common_taxon_id = Some ''9606'',
           st_common_scientific_name = Some ''Homo sapiens'',
           st_checklist_set = [''ERC000053'', ''ERC000011'']\<rparr>)"
proof -
  have 1: "process_sample submit_env initial ''ERS1'' =
     ([Download ''ERS1''],
      Inr \<lparr>st_all_attributes = [parse_sample_attributes sample_ERS1],
           st_sample_aliases = [''first''],
           st_common_taxon_id = Some ''9606'',
           st_common_scientific_name = Some ''Homo sapiens'',
           st_checklist_set = [''ERC000011'']\<rparr>)"
    using process_sample_ok [OF submit_env_fields(3), of initial]
    by (simp add: initial_def collect_checklist_examples) (simp add: sample_ERS1_def)
  have 2: "process_sample submit_env
      \<lparr>st_all_attributes = [parse_sample_attributes sample_ERS1],
           st_sample_aliases = [''first''],
           st_common_taxon_id = Some ''9606'',
           st_common_scientific_name = Some ''Homo sapiens'',
           st_checklist_set = [''ERC000011'']\<rparr> ''ERS2'' =
     ([Download ''ERS2''],
      Inr \<lparr>st_all_attributes =
             [parse_sample_attributes sample_ERS1, parse_sample_attributes sample_ERS2],
           st_sample_aliases = [''first'', ''second''],
           st_common_taxon_id = Some ''9606'',
           st_common_scientific_name = Some ''Homo sapiens'',
           st_checklist_set = [''ERC000053'', ''ERC000011'']\<rparr>)"
    by (subst process_sample_ok [OF submit_env_fields(4)])
       (simp_all add: collect_checklist_examples, simp_all add: sample_ERS2_def)
  show ?thesis by (simp add: 1 2 bind_run_def ok_def)
qed

text \<open>
  C1. The policy is stated as: an override wins; else the one observed checklist is
  used; else, with none or with two or more observed, \<open>ERC000011\<close> is used with a
  warning, and the selection never fails. The script does not do this for two or more
  observed checklists: at two samples with different checklists and no \<open>--checklist\<close>
  the run ends with \<open>ValueError\<close> right after fetching the samples.
\<close>

theorem inconsistent_checklists_raise:
  "main submit_env [''ERS1'', ''ERS2''] False False None None None False =
     ([MakeDirs, Download ''ERS1'', Download ''ERS2''],
      Inl (ValueError
        ''Inconsistent checklists found in input samples and no checklist provided.''))"
  unfolding main_submission [OF submit_env_fields(1,2)] main_collect_ERS1_ERS2
  by (simp add: main_compose_def truthy_def raise_def)

text \<open>
  The checklist the run goes on with, for a checklist set without duplicates: the
  override when one is given; else the one observed value; else, with none observed,
  \<open>ERC000011\<close> and a warning; and with two or more observed and no override the run
  raises before it chooses.
\<close>

lemma checklist_policy:
  "c \<noteq> [] \<Longrightarrow> choose_checklist (Some c) checklist_set = (c, [])"
  "\<not> truthy checklist \<Longrightarrow> choose_checklist checklist [v] = (v, [])"
  "\<not> truthy checklist \<Longrightarrow>
     choose_checklist checklist [] = (''ERC000011'', [default_checklist_warning])"
  "\<not> truthy checklist \<Longrightarrow> 2 \<le> length (st_checklist_set st) \<Longrightarrow>
     main_compose env sample_codes submit checklist alias center force st =
       ([], Inl (ValueError
          ''Inconsistent checklists found in input samples and no checklist provided.''))"
  by (auto simp: choose_checklist_def truthy_def DEFAULT_CHECKLIST_def main_compose_def raise_def
      split: option.splits)

lemma classify_example_checklist:
  "classify_fields (doc_fields example_checklist) =
     ([''collection date''], DAList.update ''depth'' (Some ''m'') DAList.empty, [''depth''])"
  by (simp add: classify_fields_def classify_field_def example_checklist_def)

lemma main_ERS1_ERS2_override:
  "main submit_env [''ERS1'', ''ERS2''] True False (Some ''ERC000011'') None None False =
     ([MakeDirs, Download ''ERS1'', Download ''ERS2'', FetchChecklist ''ERC000011'',
       WriteXml ''virtual_sample.xml'' (Element ''SAMPLE_SET'' [] None [example_virtual_sample]),
       WriteXml ''submission.xml'' create_submission_xml,
       Curl ''submission.xml'' (Some ''virtual_sample.xml'') True,
       WriteText ''submission_response.xml'' receipt_text], Inr ())"
  unfolding main_submission [OF submit_env_fields(1,2)] main_collect_ERS1_ERS2
  by (simp add: main_compose_def truthy_def choose_checklist_def mandatory_fields_and_units_def
      submit_env_fields classify_example_checklist submit_to_ebi_def bind_run_def emit_def ok_def
      example_virtual_sample_def)

text \<open>
  A run that the check stops, and one it lets pass: the third sample is of another
  species; the first two agree.
\<close>

lemma taxonomy_check_example:
  "main submit_env [''ERS1'', ''ERS2'', ''ERS3''] True False (Some ''ERC000011'') None None False =
     ([MakeDirs, Download ''ERS1'', Download ''ERS2'', Download ''ERS3''],
      Inl (ValueError ''Taxon ID mismatch for sample ERS3: 10090 vs 9606'')) \<and>
   WriteXml ''virtual_sample.xml'' (Element ''SAMPLE_SET'' [] None [example_virtual_sample]) \<in>
     set (fst (main submit_env [''ERS1'', ''ERS2''] True False (Some ''ERC000011'') None None False)) \<and>
   snd (main submit_env [''ERS1'', ''ERS2''] True False (Some ''ERC000011'') None None False) = Inr () \<and>
   record_taxon_id example_virtual_sample = Some ''9606'' \<and>
   record_scientific_name example_virtual_sample = Some ''Homo sapiens''"
proof -
  note T = taxonomy_check_with_text [OF submit_env_fields(1,2), where s = example_samples]
  have le2: "\<And>i::nat. i \<le> 2 \<Longrightarrow> i = 0 \<or> i = 1 \<or> i = 2" by arith
  have lt2: "\<And>i::nat. i < 2 \<Longrightarrow> i = 0 \<or> i = 1" by arith
  have named: "taxon_id (example_samples 0) \<noteq> None \<and> scientific_name (example_samples 0) \<noteq> None"
    by (simp add: example_samples_def sample_ERS1_def)
  have fetch3: "\<forall>i\<le>2. ena_sample_xml submit_env ([''ERS1'', ''ERS2'', ''ERS3''] ! i) =
                  Inr (Some (example_samples i))"
    using le2 by (auto simp: submit_env_fields example_samples_def)
  have agree2: "\<forall>j<2. agrees (example_samples 0) (example_samples j)"
    using lt2 by (auto simp: example_samples_def agrees_def sample_ERS1_def sample_ERS2_def)
  have differ: "\<not> agrees (example_samples 0) (example_samples 2)"
    by (simp add: example_samples_def agrees_def sample_ERS1_def sample_ERS3_def)
  have A: "main submit_env [''ERS1'', ''ERS2'', ''ERS3''] True False (Some ''ERC000011'') None None
             False =
     (MakeDirs # map Download (take (Suc 2) [''ERS1'', ''ERS2'', ''ERS3'']),
      Inl (ValueError (mismatch_message (example_samples 0) (example_samples 2)
             ([''ERS1'', ''ERS2'', ''ERS3''] ! 2))))"
    using T [of 2 "[''ERS1'', ''ERS2'', ''ERS3'']" True "Some ''ERC000011''" None None False]
      named fetch3 agree2 differ
    by simp
  have msg: "mismatch_message (example_samples 0) (example_samples 2) ''ERS3'' =
             ''Taxon ID mismatch for sample ERS3: 10090 vs 9606''"
    by (simp add: mismatch_message_def example_samples_def sample_ERS1_def sample_ERS3_def
        str_of_def)
  have fetch2: "\<forall>i<length [''ERS1'', ''ERS2''].
                  ena_sample_xml submit_env ([''ERS1'', ''ERS2''] ! i) =
                    Inr (Some (example_samples i)) \<and>
                  agrees (example_samples 0) (example_samples i)"
    using lt2 agree2 by (auto simp: submit_env_fields example_samples_def)
  let ?run = "main submit_env [''ERS1'', ''ERS2''] True False (Some ''ERC000011'') None None False"
  have w: "WriteXml ''virtual_sample.xml'' (Element ''SAMPLE_SET'' [] None [example_virtual_sample])
             \<in> set (fst ?run)"
    and fin: "snd ?run = Inr ()"
    by (simp_all add: main_ERS1_ERS2_override)
  have "\<exists>sample. Element ''SAMPLE_SET'' [] None [example_virtual_sample] =
                    Element ''SAMPLE_SET'' [] None [sample] \<and>
                  record_taxon_id sample = taxon_id (example_samples 0) \<and>
                  record_scientific_name sample = scientific_name (example_samples 0)"
    using T [of 2 "[''ERS1'', ''ERS2'']" True "Some ''ERC000011''" None None False] fetch2 w
    by blast
  then have B: "record_taxon_id example_virtual_sample = Some ''9606'' \<and>
                record_scientific_name example_virtual_sample = Some ''Homo sapiens''"
    by (simp add: example_samples_def sample_ERS1_def)
  show ?thesis using A msg w fin B by simp
qed

lemma main_collect_ERS4_ERS1:
  "main_collect submit_env [''ERS4'', ''ERS1''] initial =
     ([Download ''ERS4'', Download ''ERS1''],
      Inr \<lparr>st_all_attributes =
             [parse_sample_attributes sample_ERS4, parse_sample_attributes sample_ERS1],
           st_sample_aliases = [''fourth'', ''first''],
           st_common_taxon_id = Some ''9606'',
           st_common_scientific_name = Some ''Homo sapiens'',
           st_checklist_set = [''ERC000011'']\<rparr>)"
proof -
  have 1: "process_sample submit_env initial ''ERS4'' =
     ([Download ''ERS4''],
      Inr \<lparr>st_all_attributes = [parse_sample_attributes sample_ERS4],
           st_sample_aliases = [''fourth''],
           st_common_taxon_id = Some ''9606'',
           st_common_scientific_name = None,
           st_checklist_set = [''ERC000011'']\<rparr>)"
    using process_sample_ok [OF submit_env_fields(8), of initial]
    by (simp add: initial_def collect_checklist_examples) (simp add: sample_ERS4_def)
  have 2: "process_sample submit_env
      \<lparr>st_all_attributes = [parse_sample_attributes sample_ERS4],
           st_sample_aliases = [''fourth''],
           st_common_taxon_id = Some ''9606'',
           st_common_scientific_name = None,
           st_checklist_set = [''ERC000011'']\<rparr> ''ERS1'' =
     ([Download ''ERS1''],
      Inr \<lparr>st_all_attributes =
             [parse_sample_attributes sample_ERS4, parse_sample_attributes sample_ERS1],
           st_sample_aliases = [''fourth'', ''first''],
           st_common_taxon_id = Some ''9606'',
           st_common_scientific_name = Some ''Homo sapiens'',
           st_checklist_set = [''ERC000011'']\<rparr>)"
    by (subst process_sample_ok [OF submit_env_fields(3)])
       (simp_all add: collect_checklist_examples, simp_all add: sample_ERS1_def)
  show ?thesis by (simp add: 1 2 bind_run_def ok_def)
qed

text \<open>
  C3. The claim is that a sample whose taxon identifier or scientific name differs from
  the first sample's ends the run with an error naming it, before any record is
  composed or uploaded, and that the virtual sample carries the first sample's values.
  The script misses the case of a first sample whose element is empty: its text is
  \<open>None\<close>, which the loop also takes for no value seen yet. At a first sample \<open>ERS4\<close>
  with an empty \<open>SCIENTIFIC_NAME\<close> and a second sample \<open>ERS1\<close> named \<open>Homo sapiens\<close>, the
  run raises nothing: it composes the virtual sample with the second sample's name,
  writes it and uploads it to the production server.
\<close>

theorem empty_first_name_not_checked:
  "scientific_name sample_ERS4 = None \<and>
   scientific_name sample_ERS1 = Some ''Homo sapiens'' \<and>
   main submit_env [''ERS4'', ''ERS1''] True False None None None False =
     ([MakeDirs, Download ''ERS4'', Download ''ERS1'', FetchChecklist ''ERC000011'',
       WriteXml ''virtual_sample.xml'' (Element ''SAMPLE_SET'' [] None [nameless_virtual_sample]),
       WriteXml ''submission.xml'' create_submission_xml,
       Curl ''submission.xml'' (Some ''virtual_sample.xml'') True,
       WriteText ''submission_response.xml'' receipt_text], Inr ()) \<and>
   record_scientific_name nameless_virtual_sample = Some ''Homo sapiens''"
proof -
  have run: "main submit_env [''ERS4'', ''ERS1''] True False None None None False =
     ([MakeDirs, Download ''ERS4'', Download ''ERS1'', FetchChecklist ''ERC000011'',
       WriteXml ''virtual_sample.xml'' (Element ''SAMPLE_SET'' [] None [nameless_virtual_sample]),
       WriteXml ''submission.xml'' create_submission_xml,
       Curl ''submission.xml'' (Some ''virtual_sample.xml'') True,
       WriteText ''submission_response.xml'' receipt_text], Inr ())"
    unfolding main_submission [OF submit_env_fields(1,2)] main_collect_ERS4_ERS1
    by (simp add: main_compose_def truthy_def choose_checklist_def mandatory_fields_and_units_def
        submit_env_fields classify_example_checklist submit_to_ebi_def bind_run_def emit_def ok_def
        nameless_virtual_sample_def)
  have name: "record_scientific_name nameless_virtual_sample = Some ''Homo sapiens''"
    by (simp add: nameless_virtual_sample_def record_taxonomy_create)
  show ?thesis using run name by (simp add: sample_ERS4_def sample_ERS1_def)
qed

end
